theory Spec2Isabelle
  imports Main
begin

section \<open>Strings\<close>

text \<open>
  A JavaScript string is a sequence of UTF-16 code units, and \<open>length\<close>, \<open>slice\<close>,
  \<open>includes\<close> and \<open>trim\<close> all work on code units. A string is therefore a list of
  natural numbers (the code units); \<open>js\<close> turns an ASCII literal into one. Characters
  outside ASCII that the source writes are given by their code units.
\<close>

type_synonym jsstring = "nat list"

definition js :: "string \<Rightarrow> jsstring" where
  "js s = map of_char s"

definition startsWith :: "jsstring \<Rightarrow> jsstring \<Rightarrow> bool" where
  "startsWith s p \<longleftrightarrow> take (length p) s = p"

fun includesStr :: "jsstring \<Rightarrow> jsstring \<Rightarrow> bool" where
  "includesStr [] p = (p = [])"
| "includesStr (c # s) p = (startsWith (c # s) p \<or> includesStr s p)"

text \<open>\<open>String.prototype.trim\<close> removes white space and line terminators at both ends.\<close>

definition isLineTerminator :: "nat \<Rightarrow> bool" where
  "isLineTerminator c \<longleftrightarrow> c = 10 \<or> c = 13 \<or> c = 8232 \<or> c = 8233"

definition isWhiteSpace :: "nat \<Rightarrow> bool" where
  "isWhiteSpace c \<longleftrightarrow>
     c = 9 \<or> c = 11 \<or> c = 12 \<or> c = 32 \<or> c = 160 \<or> c = 5760 \<or>
     (8192 \<le> c \<and> c \<le> 8202) \<or> c = 8239 \<or> c = 8287 \<or> c = 12288 \<or> c = 65279 \<or>
     isLineTerminator c"

definition trimStart :: "jsstring \<Rightarrow> jsstring" where
  "trimStart s = dropWhile isWhiteSpace s"

definition trimEnd :: "jsstring \<Rightarrow> jsstring" where
  "trimEnd s = rev (dropWhile isWhiteSpace (rev s))"

definition trim :: "jsstring \<Rightarrow> jsstring" where
  "trim s = trimEnd (trimStart s)"

text \<open>
  The regular expressions of the source carry the flag \<open>i\<close> and consist of ASCII letters
  and spaces. Without the flag \<open>u\<close> a code unit outside ASCII never canonicalises to an
  ASCII letter, so matching such a pattern is matching after folding \<open>A\<close>..\<open>Z\<close> to
  \<open>a\<close>..\<open>z\<close>. The same folding stands for \<open>toLowerCase\<close> where the source searches
  the lowered text for ASCII patterns.
\<close>

definition lowerAscii :: "nat \<Rightarrow> nat" where
  "lowerAscii c = (if 65 \<le> c \<and> c \<le> 90 then c + 32 else c)"

definition toLowerCase :: "jsstring \<Rightarrow> jsstring" where
  "toLowerCase s = map lowerAscii s"

text \<open>\<open>/function call turn comes immediately after/i.test(message)\<close>\<close>

definition isSessionCorruption :: "jsstring \<Rightarrow> bool" where
  "isSessionCorruption message \<longleftrightarrow>
     includesStr (toLowerCase message) (js ''function call turn comes immediately after'')"

text \<open>
  \<open>/context.*overflow|too large|context window/i.test(message)\<close>. The dot matches
  every code unit but a line terminator, so \<open>overflow\<close> has to follow \<open>context\<close>
  on the same line.
\<close>

fun contextThenOverflow :: "jsstring \<Rightarrow> bool" where
  "contextThenOverflow [] = False"
| "contextThenOverflow (c # s) =
     ((startsWith (c # s) (js ''context'') \<and>
       includesStr (takeWhile (\<lambda>x. \<not> isLineTerminator x) (drop 7 (c # s))) (js ''overflow''))
      \<or> contextThenOverflow s)"

definition isContextOverflow :: "jsstring \<Rightarrow> bool" where
  "isContextOverflow message \<longleftrightarrow>
     (let m = toLowerCase message
      in contextThenOverflow m \<or> includesStr m (js ''too large'') \<or> includesStr m (js ''context window''))"

text \<open>\<open>/socket connection was closed unexpectedly/i\<close>, tested on a defined, non-empty message.\<close>

definition isBunFetchSocketError :: "jsstring option \<Rightarrow> bool" where
  "isBunFetchSocketError message \<longleftrightarrow>
     (case message of
        None \<Rightarrow> False
      | Some m \<Rightarrow> m \<noteq> [] \<and>
          includesStr (toLowerCase m) (js ''socket connection was closed unexpectedly''))"

text \<open>The warning sign of the source's messages: U+26A0 followed by U+FE0F.\<close>

definition warningSign :: jsstring where
  "warningSign = [9888, 65039]"

definition formatBunFetchSocketError :: "jsstring \<Rightarrow> jsstring" where
  "formatBunFetchSocketError message =
     (let trimmed = trim message
      in warningSign @ js '' LLM connection failed. This could be due to server issues, network problems, or context length exceeded (e.g., with local LLMs like LM Studio). Original error:''
         @ [10] @ js ''```'' @ [10]
         @ (if trimmed \<noteq> [] then trimmed else js ''Unknown error'')
         @ [10] @ js ''```'')"

text \<open>Decimal digits of a number, as template strings print a count.\<close>

fun showNat :: "nat \<Rightarrow> jsstring" where
  "showNat n = (if n < 10 then [48 + n] else showNat (n div 10) @ [48 + n mod 10])"

section \<open>The typing signaler\<close>

datatype TypingMode = Never | Instant | Thinking | Message

text \<open>
  The typing controller is an interface of the caller. What the signaler does to it is
  the sequence of calls it makes; \<open>Cleanup\<close> and \<open>MarkRunComplete\<close> are the two calls
  the agent runner makes on the controller itself.
\<close>

datatype TypingCall =
    StartTypingLoop
  | StartTypingOnText "jsstring option"
  | RefreshTypingTtl
  | Cleanup
  | MarkRunComplete

record TypingSignaler =
  mode :: TypingMode
  shouldStartImmediately :: bool
  shouldStartOnText :: bool
  shouldStartOnReasoning :: bool
  disabled :: bool

definition createTypingSignaler :: "TypingMode \<Rightarrow> bool \<Rightarrow> TypingSignaler" where
  "createTypingSignaler m isHeartbeat =
     \<lparr> mode = m,
       shouldStartImmediately = (m = Instant),
       shouldStartOnText = (m = Message \<or> m = Instant),
       shouldStartOnReasoning = (m = Thinking),
       disabled = (isHeartbeat \<or> m = Never) \<rparr>"

definition signalRunStart :: "TypingSignaler \<Rightarrow> TypingCall list" where
  "signalRunStart s =
     (if disabled s \<or> \<not> shouldStartImmediately s then [] else [StartTypingLoop])"

definition signalTextDelta :: "TypingSignaler \<Rightarrow> jsstring option \<Rightarrow> TypingCall list" where
  "signalTextDelta s t =
     (if disabled s then []
      else if shouldStartOnText s then [StartTypingOnText t]
      else if shouldStartOnReasoning s then [RefreshTypingTtl]
      else [])"

definition signalReasoningDelta :: "TypingSignaler \<Rightarrow> TypingCall list" where
  "signalReasoningDelta s =
     (if disabled s \<or> \<not> shouldStartOnReasoning s then []
      else [StartTypingLoop, RefreshTypingTtl])"

definition signalToolStart :: "TypingSignaler \<Rightarrow> TypingCall list" where
  "signalToolStart s = (if disabled s then [] else [StartTypingLoop])"

text \<open>The events a run sends to the signaler, and the calls a sequence of them makes.\<close>

datatype Signal = RunStart | TextDelta "jsstring option" | ReasoningDelta | ToolStart

fun signal :: "TypingSignaler \<Rightarrow> Signal \<Rightarrow> TypingCall list" where
  "signal s RunStart = signalRunStart s"
| "signal s (TextDelta t) = signalTextDelta s t"
| "signal s ReasoningDelta = signalReasoningDelta s"
| "signal s ToolStart = signalToolStart s"

definition signals :: "TypingSignaler \<Rightarrow> Signal list \<Rightarrow> TypingCall list" where
  "signals s evs = concat (map (signal s) evs)"

section \<open>Payloads and sessions\<close>

text \<open>
  \<open>ReplyPayload\<close>: every field is optional in the source. The payloads of the
  streaming callbacks carry \<open>text\<close> and \<open>mediaUrls\<close> only and are payloads whose
  other fields are undefined. The field \<open>text\<close> is called \<open>ptext\<close> here.
\<close>

record ReplyPayload =
  ptext :: "jsstring option"
  mediaUrl :: "jsstring option"
  mediaUrls :: "jsstring list option"
  replyToId :: "jsstring option"
  audioAsVoice :: "bool option"
  isError :: bool

definition textPayload :: "jsstring \<Rightarrow> ReplyPayload" where
  "textPayload t =
     \<lparr> ptext = Some t, mediaUrl = None, mediaUrls = None, replyToId = None,
       audioAsVoice = None, isError = False \<rparr>"

definition streamPayload :: "jsstring option \<Rightarrow> jsstring list option \<Rightarrow> ReplyPayload" where
  "streamPayload t ms =
     \<lparr> ptext = t, mediaUrl = None, mediaUrls = ms, replyToId = None,
       audioAsVoice = None, isError = False \<rparr>"

text \<open>JavaScript truthiness of an optional string, and \<open>a ?? b\<close>.\<close>

definition truthy :: "jsstring option \<Rightarrow> bool" where
  "truthy s \<longleftrightarrow> (case s of None \<Rightarrow> False | Some t \<Rightarrow> t \<noteq> [])"

definition orElse :: "'a option \<Rightarrow> 'a option \<Rightarrow> 'a option" where
  "orElse a b = (case a of None \<Rightarrow> b | Some x \<Rightarrow> Some x)"

text \<open>\<open>(payload.mediaUrls?.length ?? 0) > 0\<close>\<close>

definition hasMediaUrls :: "ReplyPayload \<Rightarrow> bool" where
  "hasMediaUrls p \<longleftrightarrow> (case mediaUrls p of None \<Rightarrow> False | Some ms \<Rightarrow> ms \<noteq> [])"

text \<open>\<open>Boolean(payload.mediaUrl) || (payload.mediaUrls?.length ?? 0) > 0\<close>\<close>

definition hasMedia :: "ReplyPayload \<Rightarrow> bool" where
  "hasMedia p \<longleftrightarrow> truthy (mediaUrl p) \<or> hasMediaUrls p"

text \<open>
  \<open>buildPayloadKey\<close> serialises the trimmed text, the media list and the reply target
  with \<open>JSON.stringify\<close>. The JSON text of such an object determines the three
  values and is determined by them, so the key is the triple itself.
\<close>

type_synonym PayloadKey = "jsstring \<times> jsstring list \<times> jsstring option"

definition buildPayloadKey :: "ReplyPayload \<Rightarrow> PayloadKey" where
  "buildPayloadKey payload =
     (let text = (case ptext payload of None \<Rightarrow> [] | Some t \<Rightarrow> trim t);
          mediaList =
            (if hasMediaUrls payload then the (mediaUrls payload)
             else if truthy (mediaUrl payload) then [the (mediaUrl payload)]
             else [])
      in (text, mediaList, replyToId payload))"

text \<open>
  \<open>SessionEntry\<close>, the fields the agent runner reads or writes. Token counts are
  JavaScript numbers holding integers.
\<close>

record SessionEntry =
  sessionId :: jsstring
  updatedAt :: nat
  modelProvider :: "jsstring option"
  model :: "jsstring option"
  inputTokens :: "int option"
  outputTokens :: "int option"
  totalTokens :: "int option"
  contextTokens :: "int option"
  verboseLevel :: "jsstring option"
  compactionCount :: "nat option"
  groupActivationNeedsSystemIntro :: "bool option"

type_synonym SessionStore = "jsstring \<rightharpoonup> SessionEntry"

record Usage =
  usageInput :: "int option"
  usageOutput :: "int option"
  usageCacheRead :: "int option"
  usageCacheWrite :: "int option"
  usageTotal :: "int option"

record AgentMeta =
  metaUsage :: "Usage option"
  metaModel :: "jsstring option"
  metaProvider :: "jsstring option"

text \<open>The result of \<open>runEmbeddedPiAgent\<close>: \<open>payloads\<close>, \<open>meta.agentMeta\<close>, \<open>messagingToolSentTexts\<close>.\<close>

record RunResult =
  payloads :: "ReplyPayload list option"
  agentMeta :: "AgentMeta option"
  messagingToolSentTexts :: "jsstring list option"

text \<open>\<open>FollowupRun\<close>: the prompt and the fields of \<open>run\<close> the runner itself reads.\<close>

record FollowupRun =
  prompt :: jsstring
  runSessionId :: jsstring
  runProvider :: jsstring
  runModel :: jsstring
  reasoningLevel :: jsstring

datatype QueueMode =
  Steer | Followup | Collect | SteerBacklog | SteerPlusBacklog | Queue | Interrupt

datatype VerboseLevel = VerboseOn | VerboseOff

text \<open>
  The parameters of \<open>runReplyAgent\<close>. Of \<open>opts\<close> the model keeps \<open>isHeartbeat\<close> and
  which callbacks are registered; of \<open>sessionCtx\<close> it keeps \<open>MessageSid\<close>; of
  \<open>resolvedQueue\<close> the mode. The session store is an object the caller shares with
  the function, so it is part of the world below.
\<close>

record Params =
  commandBody :: jsstring
  followupRun :: FollowupRun
  queueKey :: jsstring
  queueMode :: QueueMode
  shouldSteer :: bool
  shouldFollowup :: bool
  isActive :: bool
  isStreaming :: bool
  isHeartbeat :: bool
  hasOnPartialReply :: bool
  hasOnReasoningStream :: bool
  hasOnBlockReply :: bool
  hasOnToolResult :: bool
  sessionEntry :: "SessionEntry option"
  sessionKey :: "jsstring option"
  storePath :: "jsstring option"
  defaultModel :: jsstring
  agentCfgContextTokens :: "int option"
  resolvedVerboseLevel :: VerboseLevel
  isNewSession :: bool
  blockStreamingEnabled :: bool
  messageSid :: "jsstring option"
  shouldInjectGroupIntro :: bool
  typingMode :: TypingMode

section \<open>The world of one call\<close>

datatype error = SaveFailed | TypeError

text \<open>What the caller's callbacks were invoked with, in order.\<close>

datatype Delivery =
    PartialReply ReplyPayload
  | ReasoningStream ReplyPayload
  | BlockReply ReplyPayload
  | ToolResult ReplyPayload

text \<open>
  The state \<open>runReplyAgent\<close> works on. First the variables of its closure, then the
  objects it shares with the caller and the outside (the session store object, the
  store files on disk, the transcript files, the clock read by \<open>Date.now()\<close>, the
  follow-up queue), then the record of the calls it made. A JavaScript \<open>Set\<close> is the
  list of its members in insertion order. Log output is not modelled.
\<close>

record World =
  streamedPayloadKeys :: "PayloadKey list"
  pendingStreamedPayloadKeys :: "PayloadKey list"
  didStreamBlockReply :: bool
  autoCompactionCompleted :: bool
  replyToModeSeen :: "ReplyPayload list"
  sessionStore :: "SessionStore option"
  savedStores :: "jsstring \<rightharpoonup> SessionStore"
  diskOk :: bool
  files :: "jsstring set"
  clock :: nat
  enqueued :: "(jsstring \<times> FollowupRun) list"
  steeredMessages :: "(jsstring \<times> jsstring) list"
  drains :: "jsstring list"
  agentTurns :: nat
  typingCalls :: "TypingCall list"
  delivered :: "Delivery list"
  blockSettled :: "(PayloadKey \<times> bool) list"

text \<open>
  What the agent sends to the callbacks during a turn. A block reply is handed to the
  caller in a task of its own; \<open>BlockReplySettled k ok\<close> is the moment the task for
  key \<open>k\<close> ends, \<open>ok\<close> telling whether the caller's callback returned or threw.
\<close>

datatype AgentEvent =
    OnPartialReply ReplyPayload
  | OnReasoningStream ReplyPayload
  | OnAgentEvent jsstring "jsstring option" bool
  | OnBlockReply ReplyPayload
  | BlockReplySettled PayloadKey bool
  | OnToolResult ReplyPayload

text \<open>
  What the collaborators do during the call: whether \<open>queueEmbeddedPiMessage\<close> accepts
  the steered message, the events of the turn, how \<open>runWithModelFallback\<close> ends (it
  throws an error with a message, or returns the result with the provider and model
  used), and how block deliveries still in flight at the end settle.
\<close>

record External =
  steerAccepted :: bool
  agentEvents :: "AgentEvent list"
  agentOutcome :: "jsstring + (RunResult \<times> jsstring \<times> jsstring)"
  lateBlockOutcome :: "PayloadKey \<Rightarrow> bool"

section \<open>Helpers of other modules\<close>

record StripResult =
  shouldSkip :: bool
  strippedText :: jsstring
  didStrip :: bool

record AudioTagResult =
  cleaned :: jsstring
  audioTagAsVoice :: bool

text \<open>
  Functions and constants the agent runner imports from modules that are not among
  the sources. They are parameters of the model. \<open>stripHeartbeatToken\<close> is the call
  with \<open>mode: "message"\<close>. The filter made by \<open>createReplyToModeFilter\<close> is a closure
  with a state of its own: it is given the payloads it has been applied to before.
  \<open>applyReplyThreading\<close> receives the same filter. \<open>incrementCompactionCount\<close> receives
  the session entry, the store object, the key, the store path and the time; it
  returns the count, the store object as it leaves it, and whether it saves the store.
\<close>

record Env =
  stripHeartbeatToken :: "jsstring \<Rightarrow> StripResult"
  applyReplyTagsToPayload :: "ReplyPayload \<Rightarrow> jsstring option \<Rightarrow> ReplyPayload"
  isRenderablePayload :: "ReplyPayload \<Rightarrow> bool"
  extractAudioTag :: "jsstring option \<Rightarrow> AudioTagResult"
  applyReplyToMode :: "ReplyPayload list \<Rightarrow> ReplyPayload \<Rightarrow> ReplyPayload"
  applyReplyThreading ::
    "ReplyPayload list \<Rightarrow> ReplyPayload list \<Rightarrow> jsstring option \<Rightarrow> ReplyPayload list"
  filterMessagingToolDuplicates :: "ReplyPayload list \<Rightarrow> jsstring list \<Rightarrow> ReplyPayload list"
  SILENT_REPLY_TOKEN :: jsstring
  hasNonzeroUsage :: "Usage option \<Rightarrow> bool"
  lookupContextTokens :: "jsstring option \<Rightarrow> int option"
  DEFAULT_CONTEXT_TOKENS :: int
  resolveSessionTranscriptPath :: "jsstring \<Rightarrow> jsstring"
  incrementCompactionCount ::
    "SessionEntry option \<Rightarrow> SessionStore option \<Rightarrow> jsstring option \<Rightarrow> jsstring option \<Rightarrow> nat
       \<Rightarrow> nat option \<times> SessionStore option \<times> bool"

text \<open>
  Modelled from the spec: \<open>saveSessionStore\<close> (config/sessions.js is not among the
  sources) is the session persistence interface \<open>saveStore(path, Map)\<close>, atomic at
  the call boundary. It writes the whole store under the path, or throws and writes
  nothing.
\<close>

definition saveSessionStore :: "jsstring \<Rightarrow> SessionStore \<Rightarrow> World \<Rightarrow> error option \<times> World" where
  "saveSessionStore path store w =
     (if diskOk w then (None, w\<lparr>savedStores := (savedStores w)(path \<mapsto> store)\<rparr>)
      else (Some SaveFailed, w))"

text \<open>
  \<open>fs.unlinkSync\<close> removes the file; where there is none it throws, which the caller
  ignores.
\<close>

definition unlinkSync :: "jsstring \<Rightarrow> World \<Rightarrow> World" where
  "unlinkSync path w = w\<lparr>files := files w - {path}\<rparr>"

text \<open>\<open>Set.prototype.add\<close> and \<open>Set.prototype.delete\<close>\<close>

definition setAdd :: "'a \<Rightarrow> 'a list \<Rightarrow> 'a list" where
  "setAdd k ks = (if k \<in> set ks then ks else ks @ [k])"

definition setDelete :: "'a \<Rightarrow> 'a list \<Rightarrow> 'a list" where
  "setDelete k ks = removeAll k ks"

section \<open>The streaming callbacks\<close>

definition HEARTBEAT_TOKEN :: jsstring where
  "HEARTBEAT_TOKEN = js ''HEARTBEAT_OK''"

definition typingSignals :: "Params \<Rightarrow> TypingSignaler" where
  "typingSignals p = createTypingSignaler (typingMode p) (isHeartbeat p)"

text \<open>
  The partial-reply, block-reply and tool-result callbacks begin with the same lines:
  outside a heartbeat run, a text that includes the token is stripped, and the event
  is dropped when the stripper says to skip it and the payload has no media URLs.
  The result is \<open>None\<close> when the callback returns there, and the text to go on with
  otherwise.
\<close>

definition stripStreamText :: "Env \<Rightarrow> Params \<Rightarrow> ReplyPayload \<Rightarrow> jsstring option option" where
  "stripStreamText env p payload =
     (case ptext payload of
        None \<Rightarrow> Some None
      | Some t \<Rightarrow>
          if \<not> isHeartbeat p \<and> includesStr t HEARTBEAT_TOKEN then
            (let stripped = stripHeartbeatToken env t
             in if shouldSkip stripped \<and> \<not> hasMediaUrls payload then None
                else Some (Some (strippedText stripped)))
          else Some (Some t))"

definition allowPartialStream :: "Params \<Rightarrow> bool" where
  "allowPartialStream p \<longleftrightarrow>
     \<not> (reasoningLevel (followupRun p) = js ''stream'' \<and> hasOnReasoningStream p)"

definition onPartialReply :: "Env \<Rightarrow> Params \<Rightarrow> ReplyPayload \<Rightarrow> World \<Rightarrow> World" where
  "onPartialReply env p payload w =
     (if \<not> (hasOnPartialReply p \<and> allowPartialStream p) then w
      else case stripStreamText env p payload of
        None \<Rightarrow> w
      | Some text \<Rightarrow>
          w\<lparr>typingCalls := typingCalls w @ signalTextDelta (typingSignals p) text,
            delivered := delivered w @ [PartialReply (streamPayload text (mediaUrls payload))]\<rparr>)"

definition onReasoningStream :: "Params \<Rightarrow> ReplyPayload \<Rightarrow> World \<Rightarrow> World" where
  "onReasoningStream p payload w =
     (if \<not> (shouldStartOnReasoning (typingSignals p) \<or> hasOnReasoningStream p) then w
      else
        w\<lparr>typingCalls := typingCalls w @ signalReasoningDelta (typingSignals p),
          delivered := delivered w @
            (if hasOnReasoningStream p
             then [ReasoningStream (streamPayload (ptext payload) (mediaUrls payload))]
             else [])\<rparr>)"

text \<open>\<open>onAgentEvent\<close>: the stream, \<open>data.phase\<close> when it is a string, \<open>Boolean(data.willRetry)\<close>.\<close>

definition onAgentEvent :: "Params \<Rightarrow> jsstring \<Rightarrow> jsstring option \<Rightarrow> bool \<Rightarrow> World \<Rightarrow> World" where
  "onAgentEvent p stream dataPhase willRetry w =
     (let phase = (case dataPhase of None \<Rightarrow> [] | Some ph \<Rightarrow> ph);
          w1 = (if stream = js ''tool'' \<and> phase = js ''start''
                then w\<lparr>typingCalls := typingCalls w @ signalToolStart (typingSignals p)\<rparr>
                else w)
      in if stream = js ''compaction'' \<and> phase = js ''end'' \<and> \<not> willRetry
         then w1\<lparr>autoCompactionCompleted := True\<rparr>
         else w1)"

definition onToolResult :: "Env \<Rightarrow> Params \<Rightarrow> ReplyPayload \<Rightarrow> World \<Rightarrow> World" where
  "onToolResult env p payload w =
     (if \<not> hasOnToolResult p then w
      else case stripStreamText env p payload of
        None \<Rightarrow> w
      | Some text \<Rightarrow>
          w\<lparr>typingCalls := typingCalls w @ signalTextDelta (typingSignals p) text,
            delivered := delivered w @ [ToolResult (streamPayload text (mediaUrls payload))]\<rparr>)"

text \<open>\<open>payload.mediaUrls?.[0]\<close>\<close>

definition firstMediaUrl :: "ReplyPayload \<Rightarrow> jsstring option" where
  "firstMediaUrl payload =
     (case mediaUrls payload of None \<Rightarrow> None | Some [] \<Rightarrow> None | Some (m # ms) \<Rightarrow> Some m)"

text \<open>
  \<open>onBlockReply\<close>. \<open>taggedPayload\<close> and \<open>cleaned\<close> are the constants of those names in
  the callback, for the text the stripping step hands on. After the filters the
  payload's key is looked up among the keys delivered and the keys in flight; a new
  key is put in flight, the typing signal is given and the caller's callback is
  invoked with the block payload.
\<close>

definition taggedPayload :: "Env \<Rightarrow> Params \<Rightarrow> ReplyPayload \<Rightarrow> jsstring option \<Rightarrow> ReplyPayload" where
  "taggedPayload env p payload text =
     applyReplyTagsToPayload env
       ((streamPayload text (mediaUrls payload))\<lparr>mediaUrl := firstMediaUrl payload\<rparr>)
       (messageSid p)"

definition cleanedText :: "Env \<Rightarrow> ReplyPayload \<Rightarrow> jsstring option" where
  "cleanedText env tagged =
     (let audioTagResult = extractAudioTag env (ptext tagged)
      in if cleaned audioTagResult \<noteq> [] then Some (cleaned audioTagResult) else None)"

definition onBlockReply :: "Env \<Rightarrow> Params \<Rightarrow> ReplyPayload \<Rightarrow> World \<Rightarrow> World" where
  "onBlockReply env p payload w =
     (if \<not> (blockStreamingEnabled p \<and> hasOnBlockReply p) then w
      else case stripStreamText env p payload of
        None \<Rightarrow> w
      | Some text \<Rightarrow>
          (let tagged = taggedPayload env p payload text
           in if \<not> isRenderablePayload env tagged then w
              else
                (let audioTagResult = extractAudioTag env (ptext tagged);
                     cleaned = cleanedText env tagged;
                     media = hasMedia tagged
                 in if cleaned = None \<and> \<not> media then w
                    else if map_option trim cleaned = Some (SILENT_REPLY_TOKEN env) \<and> \<not> media
                    then w
                    else
                      (let unfiltered =
                             tagged\<lparr>ptext := cleaned,
                               audioAsVoice := Some (audioTagAsVoice audioTagResult)\<rparr>;
                           blockPayload = applyReplyToMode env (replyToModeSeen w) unfiltered;
                           w1 = w\<lparr>replyToModeSeen := replyToModeSeen w @ [unfiltered]\<rparr>;
                           payloadKey = buildPayloadKey blockPayload
                       in if payloadKey \<in> set (streamedPayloadKeys w1) \<or>
                             payloadKey \<in> set (pendingStreamedPayloadKeys w1)
                          then w1
                          else
                            w1\<lparr>pendingStreamedPayloadKeys :=
                                 setAdd payloadKey (pendingStreamedPayloadKeys w1),
                               typingCalls := typingCalls w1 @
                                 signalTextDelta (typingSignals p) (ptext tagged),
                               delivered := delivered w1 @ [BlockReply blockPayload]\<rparr>))))"

text \<open>
  The end of a block delivery task: on success the key joins the delivered keys and
  \<open>didStreamBlockReply\<close> is set; in either case the key leaves the keys in flight.
\<close>

definition settleBlockReply :: "PayloadKey \<Rightarrow> bool \<Rightarrow> World \<Rightarrow> World" where
  "settleBlockReply k ok w =
     (if k \<in> set (pendingStreamedPayloadKeys w) then
        w\<lparr>streamedPayloadKeys :=
             (if ok then setAdd k (streamedPayloadKeys w) else streamedPayloadKeys w),
          didStreamBlockReply := (didStreamBlockReply w \<or> ok),
          pendingStreamedPayloadKeys := setDelete k (pendingStreamedPayloadKeys w),
          blockSettled := blockSettled w @ [(k, ok)]\<rparr>
      else w)"

fun handleEvent :: "Env \<Rightarrow> Params \<Rightarrow> World \<Rightarrow> AgentEvent \<Rightarrow> World" where
  "handleEvent env p w (OnPartialReply payload) = onPartialReply env p payload w"
| "handleEvent env p w (OnReasoningStream payload) = onReasoningStream p payload w"
| "handleEvent env p w (OnAgentEvent stream phase willRetry) = onAgentEvent p stream phase willRetry w"
| "handleEvent env p w (OnBlockReply payload) = onBlockReply env p payload w"
| "handleEvent env p w (BlockReplySettled k ok) = settleBlockReply k ok w"
| "handleEvent env p w (OnToolResult payload) = onToolResult env p payload w"

definition handleEvents :: "Env \<Rightarrow> Params \<Rightarrow> AgentEvent list \<Rightarrow> World \<Rightarrow> World" where
  "handleEvents env p evs w = foldl (handleEvent env p) w evs"

text \<open>
  \<open>await Promise.allSettled(pendingBlockTasks)\<close>: the deliveries still in flight when
  the agent returns settle, oldest first.
\<close>

definition awaitPendingBlockTasks :: "External \<Rightarrow> World \<Rightarrow> World" where
  "awaitPendingBlockTasks ext w =
     foldl (\<lambda>v k. settleBlockReply k (lateBlockOutcome ext k) v) w (pendingStreamedPayloadKeys w)"

section \<open>The agent runner\<close>

datatype Reply = NoReply | Single ReplyPayload | Many "ReplyPayload list"

text \<open>
  \<open>finalizeWithFollowup\<close> schedules the drain of the follow-up queue and returns the
  value.
\<close>

definition finalizeWithFollowup :: "Params \<Rightarrow> Reply \<Rightarrow> World \<Rightarrow> (error + Reply) \<times> World" where
  "finalizeWithFollowup p r w = (Inr r, w\<lparr>drains := drains w @ [queueKey p]\<rparr>)"

text \<open>
  The lines both early exits share: with a session entry, a store and a key, the
  entry gets the current time and is put into the store, and the store is saved
  when there is a store path.
\<close>

definition touchSession :: "Params \<Rightarrow> World \<Rightarrow> error option \<times> World" where
  "touchSession p w =
     (case (sessionEntry p, sessionStore w) of
        (Some entry, Some store) \<Rightarrow>
          if truthy (sessionKey p) then
            (let store' = store(the (sessionKey p) \<mapsto> entry\<lparr>updatedAt := clock w\<rparr>);
                 w1 = w\<lparr>sessionStore := Some store'\<rparr>
             in if truthy (storePath p) then saveSessionStore (the (storePath p)) store' w1
                else (None, w1))
          else (None, w)
      | _ \<Rightarrow> (None, w))"

definition corruptedSessionText :: jsstring where
  "corruptedSessionText =
     warningSign @ js '' Session history was corrupted. I'' @ [39] @
     js ''ve reset the conversation - please try again!''"

definition contextOverflowText :: jsstring where
  "contextOverflowText =
     warningSign @ js '' Context overflow - conversation too long. Starting fresh might help!''"

definition agentFailedText :: "jsstring \<Rightarrow> jsstring" where
  "agentFailedText message =
     warningSign @ js '' Agent failed before reply: '' @ message @
     js ''. Check gateway logs for details.''"

text \<open>The \<open>catch\<close> around the model call; \<open>message\<close> is the message of what was thrown.\<close>

definition handleRunFailure :: "Env \<Rightarrow> Params \<Rightarrow> jsstring \<Rightarrow> World \<Rightarrow> (error + Reply) \<times> World" where
  "handleRunFailure env p message w =
     (if isSessionCorruption message \<and> truthy (sessionKey p) \<and> sessionStore w \<noteq> None \<and>
         truthy (storePath p)
      then
        (let corruptedSessionId = map_option sessionId (sessionEntry p);
             w1 = (if truthy corruptedSessionId
                   then unlinkSync (resolveSessionTranscriptPath env (the corruptedSessionId)) w
                   else w);
             store' = (the (sessionStore w1))(the (sessionKey p) := None);
             w2 = w1\<lparr>sessionStore := Some store'\<rparr>;
             w3 = snd (saveSessionStore (the (storePath p)) store' w2)
         in finalizeWithFollowup p (Single (textPayload corruptedSessionText)) w3)
      else
        finalizeWithFollowup p
          (Single (textPayload
             (if isContextOverflow message then contextOverflowText else agentFailedText message)))
          w)"

text \<open>
  The group introduction flag. The entry is changed in place, so the function also
  returns the entry the later steps see.
\<close>

definition injectGroupIntro :: "Params \<Rightarrow> World \<Rightarrow> error option \<times> SessionEntry option \<times> World" where
  "injectGroupIntro p w =
     (case (sessionEntry p, sessionStore w) of
        (Some entry, Some store) \<Rightarrow>
          if shouldInjectGroupIntro p \<and> truthy (sessionKey p) \<and>
             groupActivationNeedsSystemIntro entry = Some True
          then
            (let entry' = entry\<lparr>groupActivationNeedsSystemIntro := Some False, updatedAt := clock w\<rparr>;
                 store' = store(the (sessionKey p) \<mapsto> entry');
                 w1 = w\<lparr>sessionStore := Some store'\<rparr>
             in if truthy (storePath p)
                then (case saveSessionStore (the (storePath p)) store' w1 of
                        (e, w2) \<Rightarrow> (e, Some entry', w2))
                else (None, Some entry', w1))
          else (None, sessionEntry p, w)
      | _ \<Rightarrow> (None, sessionEntry p, w))"

text \<open>
  The final payloads of a run that is not a heartbeat: the text of an error payload
  that reports a closed socket is rewritten, then the heartbeat token is stripped.
\<close>

definition socketErrorText :: "ReplyPayload \<Rightarrow> jsstring option" where
  "socketErrorText payload =
     (if isError payload \<and> truthy (ptext payload) \<and> isBunFetchSocketError (ptext payload)
      then Some (formatBunFetchSocketError (the (ptext payload)))
      else ptext payload)"

definition sanitizePayload :: "Env \<Rightarrow> ReplyPayload \<Rightarrow> ReplyPayload list" where
  "sanitizePayload env payload =
     (let text = socketErrorText payload
      in if \<not> truthy text \<or> \<not> includesStr (the text) HEARTBEAT_TOKEN
         then [payload\<lparr>ptext := text\<rparr>]
         else
           (let stripped = stripHeartbeatToken env (the text)
            in if shouldSkip stripped \<and> \<not> hasMedia payload then []
               else [payload\<lparr>ptext := Some (strippedText stripped)\<rparr>]))"

definition sanitizedPayloads :: "Env \<Rightarrow> Params \<Rightarrow> ReplyPayload list \<Rightarrow> ReplyPayload list" where
  "sanitizedPayloads env p payloadArray =
     (if isHeartbeat p then payloadArray else concat (map (sanitizePayload env) payloadArray))"

definition replyTaggedPayloads ::
  "Env \<Rightarrow> Params \<Rightarrow> World \<Rightarrow> ReplyPayload list \<Rightarrow> ReplyPayload list" where
  "replyTaggedPayloads env p w sanitized =
     filter (isRenderablePayload env)
       (map (\<lambda>payload.
               let audioTagResult = extractAudioTag env (ptext payload)
               in payload\<lparr>ptext :=
                      (if cleaned audioTagResult \<noteq> [] then Some (cleaned audioTagResult) else None),
                    audioAsVoice := Some (audioTagAsVoice audioTagResult)\<rparr>)
          (applyReplyThreading env (replyToModeSeen w) sanitized (messageSid p)))"

definition filteredPayloads :: "Params \<Rightarrow> World \<Rightarrow> ReplyPayload list \<Rightarrow> ReplyPayload list" where
  "filteredPayloads p w dedupedPayloads =
     (if blockStreamingEnabled p \<and> didStreamBlockReply w then []
      else if blockStreamingEnabled p
      then filter (\<lambda>payload. buildPayloadKey payload \<notin> set (streamedPayloadKeys w)) dedupedPayloads
      else dedupedPayloads)"

definition shouldSignalTyping :: "Env \<Rightarrow> ReplyPayload list \<Rightarrow> bool" where
  "shouldSignalTyping env ps =
     list_ex (\<lambda>payload.
        (let trimmed = map_option trim (ptext payload)
         in (truthy trimmed \<and> trimmed \<noteq> Some (SILENT_REPLY_TOKEN env)) \<or>
            truthy (mediaUrl payload) \<or> hasMediaUrls payload)) ps"

text \<open>
  The session update after a run that has something to send. First the constants
  it computes: \<open>usage\<close>, \<open>modelUsed\<close>, \<open>providerUsed\<close>, \<open>contextTokensUsed\<close>
  (\<open>entry0\<close> is the function's \<open>sessionEntry\<close> as the group introduction step left
  it), then the entry written when the usage is nonzero, the entry written
  otherwise, and the write itself.
\<close>

definition usageOf :: "RunResult \<Rightarrow> Usage option" where
  "usageOf runResult = (case agentMeta runResult of None \<Rightarrow> None | Some m \<Rightarrow> metaUsage m)"

definition modelUsed :: "Params \<Rightarrow> RunResult \<Rightarrow> jsstring \<Rightarrow> jsstring option" where
  "modelUsed p runResult fallbackModel =
     orElse (case agentMeta runResult of None \<Rightarrow> None | Some m \<Rightarrow> metaModel m)
       (orElse (Some fallbackModel) (Some (defaultModel p)))"

definition providerUsed :: "Params \<Rightarrow> RunResult \<Rightarrow> jsstring \<Rightarrow> jsstring option" where
  "providerUsed p runResult fallbackProvider =
     orElse (case agentMeta runResult of None \<Rightarrow> None | Some m \<Rightarrow> metaProvider m)
       (orElse (Some fallbackProvider) (Some (runProvider (followupRun p))))"

definition contextTokensUsed ::
  "Env \<Rightarrow> Params \<Rightarrow> SessionEntry option \<Rightarrow> RunResult \<Rightarrow> jsstring \<Rightarrow> int option" where
  "contextTokensUsed env p entry0 runResult fallbackModel =
     orElse (agentCfgContextTokens p)
       (orElse (lookupContextTokens env (modelUsed p runResult fallbackModel))
          (orElse (case entry0 of None \<Rightarrow> None | Some e \<Rightarrow> contextTokens e)
             (Some (DEFAULT_CONTEXT_TOKENS env))))"

definition nextEntry ::
  "SessionEntry \<Rightarrow> Usage \<Rightarrow> jsstring option \<Rightarrow> jsstring option \<Rightarrow> int option \<Rightarrow> nat \<Rightarrow> SessionEntry" where
  "nextEntry entry usage provider modelName context now =
     (let input = (case usageInput usage of None \<Rightarrow> 0 | Some n \<Rightarrow> n);
          output = (case usageOutput usage of None \<Rightarrow> 0 | Some n \<Rightarrow> n);
          promptTokens =
            input + (case usageCacheRead usage of None \<Rightarrow> 0 | Some n \<Rightarrow> n)
                  + (case usageCacheWrite usage of None \<Rightarrow> 0 | Some n \<Rightarrow> n)
      in entry\<lparr>inputTokens := Some input,
               outputTokens := Some output,
               totalTokens :=
                 Some (if promptTokens > 0 then promptTokens
                       else (case usageTotal usage of None \<Rightarrow> input | Some t \<Rightarrow> t)),
               modelProvider := provider,
               model := modelName,
               contextTokens := orElse context (contextTokens entry),
               updatedAt := now\<rparr>)"

definition refreshedEntry ::
  "SessionEntry \<Rightarrow> jsstring option \<Rightarrow> jsstring option \<Rightarrow> int option \<Rightarrow> SessionEntry" where
  "refreshedEntry entry provider modelName context =
     entry\<lparr>modelProvider := orElse provider (modelProvider entry),
           model := orElse modelName (model entry),
           contextTokens := orElse context (contextTokens entry)\<rparr>"

text \<open>\<open>sessionStore[sessionKey] = entry\<close>, and the save when there is a store path.\<close>

definition writeEntry :: "Params \<Rightarrow> SessionStore \<Rightarrow> SessionEntry \<Rightarrow> World \<Rightarrow> error option \<times> World" where
  "writeEntry p store entry w =
     (let store' = store(the (sessionKey p) \<mapsto> entry);
          w1 = w\<lparr>sessionStore := Some store'\<rparr>
      in if truthy (storePath p) then saveSessionStore (the (storePath p)) store' w1
         else (None, w1))"

definition updateSessionUsage ::
  "Env \<Rightarrow> Params \<Rightarrow> SessionEntry option \<Rightarrow> RunResult \<Rightarrow> jsstring \<Rightarrow> jsstring \<Rightarrow> World
     \<Rightarrow> error option \<times> World" where
  "updateSessionUsage env p entry0 runResult fallbackProvider fallbackModel w =
     (case sessionStore w of
        None \<Rightarrow> (None, w)
      | Some store \<Rightarrow>
          if \<not> truthy (sessionKey p) then (None, w)
          else
            (let usage = usageOf runResult;
                 modelName = modelUsed p runResult fallbackModel;
                 provider = providerUsed p runResult fallbackProvider;
                 context = contextTokensUsed env p entry0 runResult fallbackModel;
                 entry = orElse entry0 (store (the (sessionKey p)))
             in if hasNonzeroUsage env usage then
                  (case entry of
                     None \<Rightarrow> (None, w)
                   | Some e \<Rightarrow>
                       (case usage of
                          None \<Rightarrow> (Some TypeError, w)
                        | Some u \<Rightarrow>
                            writeEntry p store (nextEntry e u provider modelName context (clock w)) w))
                else if truthy modelName \<or> (context \<noteq> None \<and> context \<noteq> Some 0) then
                  (case entry of
                     None \<Rightarrow> (None, w)
                   | Some e \<Rightarrow> writeEntry p store (refreshedEntry e provider modelName context) w)
                else (None, w)))"

text \<open>The broom U+1F9F9 and the compass U+1F9ED, each a surrogate pair.\<close>

definition compactionNotice :: "nat option \<Rightarrow> jsstring" where
  "compactionNotice count =
     [55358, 56825] @ js '' Auto-compaction complete'' @
     (case count of None \<Rightarrow> [] | Some n \<Rightarrow> js '' (count '' @ showNat n @ js '')'') @ js ''.''"

definition newSessionNotice :: "Params \<Rightarrow> jsstring" where
  "newSessionNotice p = [55358, 56813] @ js '' New session: '' @ runSessionId (followupRun p)"

definition asReply :: "ReplyPayload list \<Rightarrow> Reply" where
  "asReply ps = (case ps of [x] \<Rightarrow> Single x | _ \<Rightarrow> Many ps)"

definition withNewSessionHint :: "Params \<Rightarrow> ReplyPayload list \<Rightarrow> ReplyPayload list" where
  "withNewSessionHint p ps =
     (if resolvedVerboseLevel p = VerboseOn \<and> isNewSession p
      then textPayload (newSessionNotice p) # ps else ps)"

text \<open>The compaction notice, the new-session hint and the return of the payloads.\<close>

definition finishPayloads ::
  "Env \<Rightarrow> Params \<Rightarrow> SessionEntry option \<Rightarrow> ReplyPayload list \<Rightarrow> World \<Rightarrow> (error + Reply) \<times> World" where
  "finishPayloads env p entry filtered w =
     (if autoCompactionCompleted w then
        (case incrementCompactionCount env entry (sessionStore w) (sessionKey p) (storePath p) (clock w) of
           (count, store', saves) \<Rightarrow>
             (case (if saves \<and> store' \<noteq> None \<and> truthy (storePath p)
                    then saveSessionStore (the (storePath p)) (the store') (w\<lparr>sessionStore := store'\<rparr>)
                    else (None, w\<lparr>sessionStore := store'\<rparr>)) of
                (Some e, w1) \<Rightarrow> (Inl e, w1)
              | (None, w1) \<Rightarrow>
                  finalizeWithFollowup p
                    (asReply (withNewSessionHint p
                       (if resolvedVerboseLevel p = VerboseOn
                        then textPayload (compactionNotice count) # filtered else filtered)))
                    w1))
      else finalizeWithFollowup p (asReply (withNewSessionHint p filtered)) w)"

text \<open>The turn after the model call has returned \<open>runResult\<close>.\<close>

definition completeRun ::
  "Env \<Rightarrow> External \<Rightarrow> Params \<Rightarrow> RunResult \<Rightarrow> jsstring \<Rightarrow> jsstring \<Rightarrow> World
     \<Rightarrow> (error + Reply) \<times> World" where
  "completeRun env ext p runResult fallbackProvider fallbackModel w =
     (case injectGroupIntro p w of
        (Some e, entry, w1) \<Rightarrow> (Inl e, w1)
      | (None, entry, w1) \<Rightarrow>
          (let payloadArray = (case payloads runResult of None \<Rightarrow> [] | Some ps \<Rightarrow> ps);
               w2 = awaitPendingBlockTasks ext w1
           in if payloadArray = [] then finalizeWithFollowup p NoReply w2
              else
                (let filtered =
                       filteredPayloads p w2
                         (filterMessagingToolDuplicates env
                            (replyTaggedPayloads env p w2 (sanitizedPayloads env p payloadArray))
                            (case messagingToolSentTexts runResult of None \<Rightarrow> [] | Some ts \<Rightarrow> ts))
                 in if filtered = [] then finalizeWithFollowup p NoReply w2
                    else
                      (let w3 = (if shouldSignalTyping env filtered
                                 then w2\<lparr>typingCalls := typingCalls w2 @ signalRunStart (typingSignals p)\<rparr>
                                 else w2)
                       in case updateSessionUsage env p entry runResult fallbackProvider fallbackModel w3 of
                            (Some e, w4) \<Rightarrow> (Inl e, w4)
                          | (None, w4) \<Rightarrow> finishPayloads env p entry filtered w4))))"

text \<open>
  The \<open>try\<close> block with its \<open>finally\<close>: one agent turn is started, its events go
  through the callbacks, and the turn ends in the \<open>catch\<close> or in the steps after the
  model call; \<open>markRunComplete\<close> is called whichever way it ends.
\<close>

definition runTurn :: "Env \<Rightarrow> External \<Rightarrow> Params \<Rightarrow> World \<Rightarrow> (error + Reply) \<times> World" where
  "runTurn env ext p w =
     (let w1 = handleEvents env p (agentEvents ext) (w\<lparr>agentTurns := Suc (agentTurns w)\<rparr>);
          (r, w2) =
            (case agentOutcome ext of
               Inl message \<Rightarrow> handleRunFailure env p message w1
             | Inr (runResult, fallbackProvider, fallbackModel) \<Rightarrow>
                 completeRun env ext p runResult fallbackProvider fallbackModel w1)
      in (r, w2\<lparr>typingCalls := typingCalls w2 @ [MarkRunComplete]\<rparr>))"

definition freshClosure :: "World \<Rightarrow> World" where
  "freshClosure w =
     w\<lparr>streamedPayloadKeys := [], pendingStreamedPayloadKeys := [],
       didStreamBlockReply := False, autoCompactionCompleted := False, replyToModeSeen := []\<rparr>"

definition runReplyAgent :: "Env \<Rightarrow> External \<Rightarrow> Params \<Rightarrow> World \<Rightarrow> (error + Reply) \<times> World" where
  "runReplyAgent env ext p w0 =
     (let w = freshClosure w0;
          steered = (shouldSteer p \<and> isStreaming p \<and> steerAccepted ext);
          w1 = (if steered
                then w\<lparr>steeredMessages := steeredMessages w @
                         [(runSessionId (followupRun p), prompt (followupRun p))]\<rparr>
                else w)
      in if steered \<and> \<not> shouldFollowup p then
           (case touchSession p w1 of
              (Some e, w2) \<Rightarrow> (Inl e, w2)
            | (None, w2) \<Rightarrow> (Inr NoReply, w2\<lparr>typingCalls := typingCalls w2 @ [Cleanup]\<rparr>))
         else if isActive p \<and> (shouldFollowup p \<or> queueMode p = Steer) then
           (case touchSession p (w1\<lparr>enqueued := enqueued w1 @ [(queueKey p, followupRun p)]\<rparr>) of
              (Some e, w2) \<Rightarrow> (Inl e, w2)
            | (None, w2) \<Rightarrow> (Inr NoReply, w2\<lparr>typingCalls := typingCalls w2 @ [Cleanup]\<rparr>))
         else runTurn env ext p w1)"

section \<open>Error texts of the embedded agent\<close>

text \<open>\<open>AssistantMessage\<close>: the two fields \<open>formatAssistantErrorText\<close> reads.\<close>

record AssistantMessage =
  stopReason :: jsstring
  errorMessage :: "jsstring option"

definition isContextOverflowError :: "jsstring option \<Rightarrow> bool" where
  "isContextOverflowError message \<longleftrightarrow>
     (case message of
        None \<Rightarrow> False
      | Some m \<Rightarrow>
          m \<noteq> [] \<and>
          (let lower = toLowerCase m
           in includesStr lower (js ''request_too_large'') \<or>
              includesStr lower (js ''request exceeds the maximum size'') \<or>
              includesStr lower (js ''context length exceeded'') \<or>
              includesStr lower (js ''maximum context length'') \<or>
              (includesStr lower (js ''413'') \<and> includesStr lower (js ''too large''))))"

text \<open>
  The match of \<open>/"type":"invalid_request_error".*?"message":"([^"]+)"/\<close>, giving the
  group. \<open>matchMessage\<close> is the part after the first literal: the lazy \<open>.*?\<close> moves on one
  code unit at a time and stops at a line terminator; the group is the longest run of
  code units other than the quote, which must not be empty and must end at a quote.
  \<open>matchInvalidRequest\<close> tries every start from the left.
\<close>

definition quoted :: "string \<Rightarrow> jsstring" where
  "quoted s = [34] @ js s @ [34]"

fun matchMessage :: "jsstring \<Rightarrow> jsstring option" where
  "matchMessage [] = None"
| "matchMessage (c # s) =
     (let lit = quoted ''message'' @ js '':'' @ [34];
          rest = drop (length lit) (c # s);
          run = takeWhile (\<lambda>x. x \<noteq> 34) rest
      in if startsWith (c # s) lit \<and> run \<noteq> [] \<and> length run < length rest then Some run
         else if isLineTerminator c then None
         else matchMessage s)"

fun matchInvalidRequest :: "jsstring \<Rightarrow> jsstring option" where
  "matchInvalidRequest [] = None"
| "matchInvalidRequest (c # s) =
     (let lit = quoted ''type'' @ js '':'' @ quoted ''invalid_request_error''
      in case (if startsWith (c # s) lit then matchMessage (drop (length lit) (c # s)) else None) of
           Some m \<Rightarrow> Some m
         | None \<Rightarrow> matchInvalidRequest s)"

text \<open>The ellipsis U+2026 is one code unit.\<close>

definition formatAssistantErrorText :: "AssistantMessage \<Rightarrow> jsstring option" where
  "formatAssistantErrorText msg =
     (if stopReason msg \<noteq> js ''error'' then None
      else
        (let raw = trim (case errorMessage msg of None \<Rightarrow> [] | Some m \<Rightarrow> m)
         in if raw = [] then Some (js ''LLM request failed with an unknown error.'')
            else if isContextOverflowError (Some raw) then
              Some (js ''Context overflow: the conversation history is too large. '' @
                    js ''Use /new or /reset to start a fresh session.'')
            else
              (case matchInvalidRequest raw of
                 Some m \<Rightarrow> Some (js ''LLM request rejected: '' @ m)
               | None \<Rightarrow> Some (if length raw > 600 then take 600 raw @ [8230] else raw))))"

section \<open>Observations\<close>

text \<open>
  The keys of the block deliveries that succeeded, the payloads a call returns, and
  the number of payloads with a given key that a call delivered: blocks handed over
  with success, and final payloads returned.
\<close>

definition succeeded :: "World \<Rightarrow> PayloadKey list" where
  "succeeded w = map fst (filter snd (blockSettled w))"

fun replyPayloads :: "error + Reply \<Rightarrow> ReplyPayload list" where
  "replyPayloads (Inl e) = []"
| "replyPayloads (Inr NoReply) = []"
| "replyPayloads (Inr (Single x)) = [x]"
| "replyPayloads (Inr (Many xs)) = xs"

definition deliveredWithKey :: "PayloadKey \<Rightarrow> (error + Reply) \<times> World \<Rightarrow> nat" where
  "deliveredWithKey k res =
     count_list (succeeded (snd res)) k +
     length (filter (\<lambda>payload. buildPayloadKey payload = k) (replyPayloads (fst res)))"

text \<open>
  The invariant of block streaming: no key succeeded twice, a key that succeeded is
  among the delivered keys, no key is both in flight and delivered, a success sets
  \<open>didStreamBlockReply\<close>, and blocks are only streamed when block streaming is enabled.
\<close>

definition dedupInvariant :: "Params \<Rightarrow> World \<Rightarrow> bool" where
  "dedupInvariant p w \<longleftrightarrow>
     distinct (succeeded w) \<and>
     set (succeeded w) \<subseteq> set (streamedPayloadKeys w) \<and>
     set (pendingStreamedPayloadKeys w) \<inter> set (streamedPayloadKeys w) = {} \<and>
     (succeeded w \<noteq> [] \<longrightarrow> didStreamBlockReply w) \<and>
     (pendingStreamedPayloadKeys w \<noteq> [] \<or> succeeded w \<noteq> [] \<longrightarrow> blockStreamingEnabled p)"

text \<open>The agent event after which \<open>autoCompactionCompleted\<close> is set.\<close>

fun compactionEnded :: "AgentEvent \<Rightarrow> bool" where
  "compactionEnded (OnAgentEvent stream phase willRetry) =
     (stream = js ''compaction'' \<and> phase = Some (js ''end'') \<and> \<not> willRetry)"
| "compactionEnded _ = False"

section \<open>A concrete setting\<close>

text \<open>
  Stand-ins for the imported helpers, used for the concrete runs below: the stripper
  removes a leading token, tags and threading leave payloads alone, a payload is
  renderable when it has text or media, and usage is nonzero when a count is positive.
\<close>

definition sampleStrip :: "jsstring \<Rightarrow> StripResult" where
  "sampleStrip t =
     (let s = trim t
      in if startsWith s HEARTBEAT_TOKEN then
           (let r = trim (drop (length HEARTBEAT_TOKEN) s)
            in \<lparr> shouldSkip = (r = []), strippedText = r, didStrip = True \<rparr>)
         else \<lparr> shouldSkip = False, strippedText = s, didStrip = False \<rparr>)"

definition positive :: "int option \<Rightarrow> bool" where
  "positive n \<longleftrightarrow> (case n of None \<Rightarrow> False | Some v \<Rightarrow> v > 0)"

definition sampleEnv :: Env where
  "sampleEnv =
     \<lparr> stripHeartbeatToken = sampleStrip,
       applyReplyTagsToPayload = (\<lambda>payload sid. payload),
       isRenderablePayload = (\<lambda>payload. truthy (ptext payload) \<or> hasMedia payload),
       extractAudioTag =
         (\<lambda>t. \<lparr> cleaned = (case t of None \<Rightarrow> [] | Some x \<Rightarrow> x), audioTagAsVoice = False \<rparr>),
       applyReplyToMode = (\<lambda>seen payload. payload),
       applyReplyThreading = (\<lambda>seen ps sid. ps),
       filterMessagingToolDuplicates =
         (\<lambda>ps sent. filter (\<lambda>payload. case ptext payload of None \<Rightarrow> True | Some t \<Rightarrow> t \<notin> set sent) ps),
       SILENT_REPLY_TOKEN = js ''NO_REPLY'',
       hasNonzeroUsage =
         (\<lambda>u. case u of
                None \<Rightarrow> False
              | Some v \<Rightarrow> positive (usageInput v) \<or> positive (usageOutput v) \<or>
                  positive (usageCacheRead v) \<or> positive (usageCacheWrite v) \<or>
                  positive (usageTotal v)),
       lookupContextTokens = (\<lambda>m. None),
       DEFAULT_CONTEXT_TOKENS = 200000,
       resolveSessionTranscriptPath = (\<lambda>sid. js ''sessions/'' @ sid @ js ''.jsonl''),
       incrementCompactionCount = (\<lambda>entry store key path now. (None, store, False)) \<rparr>"

definition sampleEntry :: SessionEntry where
  "sampleEntry =
     \<lparr> sessionId = js ''s1'', updatedAt = 1, modelProvider = None, model = None,
       inputTokens = None, outputTokens = None, totalTokens = None, contextTokens = None,
       verboseLevel = None, compactionCount = None, groupActivationNeedsSystemIntro = None \<rparr>"

definition sampleParams :: Params where
  "sampleParams =
     \<lparr> commandBody = js ''hello'',
       followupRun =
         \<lparr> prompt = js ''hello'', runSessionId = js ''s1'', runProvider = js ''anthropic'',
           runModel = js ''m1'', reasoningLevel = js ''off'' \<rparr>,
       queueKey = js ''main'', queueMode = Followup,
       shouldSteer = False, shouldFollowup = False, isActive = False, isStreaming = False,
       isHeartbeat = False,
       hasOnPartialReply = True, hasOnReasoningStream = True, hasOnBlockReply = True,
       hasOnToolResult = True,
       sessionEntry = Some sampleEntry, sessionKey = Some (js ''main''),
       storePath = Some (js ''sessions.json''),
       defaultModel = js ''m1'', agentCfgContextTokens = None,
       resolvedVerboseLevel = VerboseOff, isNewSession = False,
       blockStreamingEnabled = True, messageSid = None,
       shouldInjectGroupIntro = False, typingMode = Instant \<rparr>"

definition sampleWorld :: World where
  "sampleWorld =
     \<lparr> streamedPayloadKeys = [], pendingStreamedPayloadKeys = [],
       didStreamBlockReply = False, autoCompactionCompleted = False, replyToModeSeen = [],
       sessionStore = Some [js ''main'' \<mapsto> sampleEntry],
       savedStores = Map.empty, diskOk = True,
       files = {js ''sessions/s1.jsonl''}, clock = 5,
       enqueued = [], steeredMessages = [], drains = [], agentTurns = 0,
       typingCalls = [], delivered = [], blockSettled = [] \<rparr>"

text \<open>A result with the given payloads and usage, and a turn that returns it.\<close>

definition sampleResult :: "ReplyPayload list \<Rightarrow> Usage option \<Rightarrow> RunResult" where
  "sampleResult ps u =
     \<lparr> payloads = Some ps,
       agentMeta = Some \<lparr> metaUsage = u, metaModel = Some (js ''m1''),
                         metaProvider = Some (js ''anthropic'') \<rparr>,
       messagingToolSentTexts = None \<rparr>"

definition sampleUsage :: Usage where
  "sampleUsage =
     \<lparr> usageInput = Some 100, usageOutput = Some 50, usageCacheRead = None,
       usageCacheWrite = None, usageTotal = None \<rparr>"

definition returning :: "AgentEvent list \<Rightarrow> RunResult \<Rightarrow> External" where
  "returning evs r =
     \<lparr> steerAccepted = False, agentEvents = evs,
       agentOutcome = Inr (r, js ''anthropic'', js ''m1''),
       lateBlockOutcome = (\<lambda>k. True) \<rparr>"

definition throwing :: "jsstring \<Rightarrow> External" where
  "throwing message =
     \<lparr> steerAccepted = False, agentEvents = [], agentOutcome = Inl message,
       lateBlockOutcome = (\<lambda>k. True) \<rparr>"

section \<open>Unfolding for concrete runs\<close>

lemmas string_defs = js_def startsWith_def trim_def trimStart_def trimEnd_def isWhiteSpace_def
  isLineTerminator_def toLowerCase_def lowerAscii_def HEARTBEAT_TOKEN_def

lemmas sample_defs = sampleEnv_def sampleParams_def sampleWorld_def sampleResult_def sampleUsage_def
  returning_def throwing_def sampleEntry_def textPayload_def streamPayload_def positive_def
  sampleStrip_def

lemmas run_defs = runReplyAgent_def freshClosure_def runTurn_def handleEvents_def completeRun_def
  injectGroupIntro_def awaitPendingBlockTasks_def finalizeWithFollowup_def filteredPayloads_def
  replyTaggedPayloads_def sanitizedPayloads_def sanitizePayload_def socketErrorText_def
  shouldSignalTyping_def updateSessionUsage_def usageOf_def modelUsed_def providerUsed_def
  contextTokensUsed_def nextEntry_def refreshedEntry_def writeEntry_def finishPayloads_def asReply_def withNewSessionHint_def
  saveSessionStore_def typingSignals_def createTypingSignaler_def signalRunStart_def
  signalTextDelta_def signalReasoningDelta_def signalToolStart_def
  truthy_def orElse_def hasMedia_def hasMediaUrls_def touchSession_def handleRunFailure_def
  unlinkSync_def onPartialReply_def onReasoningStream_def onAgentEvent_def onToolResult_def
  onBlockReply_def settleBlockReply_def stripStreamText_def allowPartialStream_def taggedPayload_def
  cleanedText_def firstMediaUrl_def buildPayloadKey_def setAdd_def setDelete_def succeeded_def
  deliveredWithKey_def Let_def

lemmas steer_defs = runReplyAgent_def freshClosure_def touchSession_def saveSessionStore_def
  truthy_def Let_def

section \<open>What the callbacks leave alone\<close>

lemmas callback_defs = onPartialReply_def onReasoningStream_def onAgentEvent_def onToolResult_def
  onBlockReply_def settleBlockReply_def

lemma handleEvent_frame:
  "sessionStore (handleEvent env p w e) = sessionStore w \<and>
   savedStores (handleEvent env p w e) = savedStores w \<and>
   diskOk (handleEvent env p w e) = diskOk w \<and>
   files (handleEvent env p w e) = files w \<and>
   clock (handleEvent env p w e) = clock w \<and>
   enqueued (handleEvent env p w e) = enqueued w \<and>
   steeredMessages (handleEvent env p w e) = steeredMessages w \<and>
   drains (handleEvent env p w e) = drains w \<and>
   agentTurns (handleEvent env p w e) = agentTurns w"
  by (cases e) (simp_all add: callback_defs Let_def split: option.splits)

lemma handleEvents_frame:
  "sessionStore (handleEvents env p evs w) = sessionStore w \<and>
   savedStores (handleEvents env p evs w) = savedStores w \<and>
   diskOk (handleEvents env p evs w) = diskOk w \<and>
   files (handleEvents env p evs w) = files w \<and>
   clock (handleEvents env p evs w) = clock w \<and>
   enqueued (handleEvents env p evs w) = enqueued w \<and>
   steeredMessages (handleEvents env p evs w) = steeredMessages w \<and>
   drains (handleEvents env p evs w) = drains w \<and>
   agentTurns (handleEvents env p evs w) = agentTurns w"
  unfolding handleEvents_def
proof (induction evs arbitrary: w)
  case Nil
  show ?case by simp
next
  case (Cons e evs)
  show ?case using Cons.IH [of "handleEvent env p w e"] handleEvent_frame [of env p w e]
    by simp
qed

section \<open>Block streaming keeps its invariant\<close>

lemma settleBlockReply_invariant:
  assumes "dedupInvariant p w"
  shows "dedupInvariant p (settleBlockReply k ok w)"
  using assms
  by (auto simp add: dedupInvariant_def settleBlockReply_def succeeded_def setAdd_def setDelete_def)

lemma onBlockReply_streaming:
  "blockSettled (onBlockReply env p payload w) = blockSettled w \<and>
   streamedPayloadKeys (onBlockReply env p payload w) = streamedPayloadKeys w \<and>
   didStreamBlockReply (onBlockReply env p payload w) = didStreamBlockReply w \<and>
   set (pendingStreamedPayloadKeys (onBlockReply env p payload w)) \<inter> set (streamedPayloadKeys w)
     \<subseteq> set (pendingStreamedPayloadKeys w) \<inter> set (streamedPayloadKeys w) \<and>
   (pendingStreamedPayloadKeys (onBlockReply env p payload w) \<noteq> [] \<longrightarrow>
      pendingStreamedPayloadKeys w \<noteq> [] \<or> blockStreamingEnabled p)"
  by (auto simp add: onBlockReply_def Let_def setAdd_def split: option.splits)

lemma onBlockReply_invariant:
  assumes "dedupInvariant p w"
  shows "dedupInvariant p (onBlockReply env p payload w)"
  using assms onBlockReply_streaming [of env p payload w]
  by (auto simp add: dedupInvariant_def succeeded_def)

lemma handleEvent_invariant:
  assumes "dedupInvariant p w"
  shows "dedupInvariant p (handleEvent env p w e)"
proof (cases e)
  case (OnBlockReply payload)
  then show ?thesis using assms by (simp add: onBlockReply_invariant)
next
  case (BlockReplySettled k ok)
  then show ?thesis using assms by (simp add: settleBlockReply_invariant)
qed (use assms in \<open>simp_all add: dedupInvariant_def succeeded_def onPartialReply_def
       onReasoningStream_def onAgentEvent_def onToolResult_def Let_def split: option.splits\<close>)

lemma handleEvents_invariant:
  assumes "dedupInvariant p w"
  shows "dedupInvariant p (handleEvents env p evs w)"
  using assms unfolding handleEvents_def
  by (induction evs arbitrary: w) (simp_all add: handleEvent_invariant)

lemma settleAll_invariant:
  assumes "dedupInvariant p w"
  shows "dedupInvariant p (foldl (\<lambda>v k. settleBlockReply k (f k) v) w ks)"
  using assms
  by (induction ks arbitrary: w) (simp_all add: settleBlockReply_invariant)

lemma awaitPendingBlockTasks_invariant:
  assumes "dedupInvariant p w"
  shows "dedupInvariant p (awaitPendingBlockTasks ext w)"
  using assms by (simp add: awaitPendingBlockTasks_def settleAll_invariant)


lemma injectGroupIntro_streaming:
  "blockSettled (snd (snd (injectGroupIntro p v))) = blockSettled v \<and>
   streamedPayloadKeys (snd (snd (injectGroupIntro p v))) = streamedPayloadKeys v \<and>
   pendingStreamedPayloadKeys (snd (snd (injectGroupIntro p v))) = pendingStreamedPayloadKeys v \<and>
   didStreamBlockReply (snd (snd (injectGroupIntro p v))) = didStreamBlockReply v \<and>
   autoCompactionCompleted (snd (snd (injectGroupIntro p v))) = autoCompactionCompleted v \<and>
   clock (snd (snd (injectGroupIntro p v))) = clock v \<and>
   diskOk (snd (snd (injectGroupIntro p v))) = diskOk v"
  by (simp add: injectGroupIntro_def saveSessionStore_def Let_def split: option.splits)

lemma injectGroupIntro_error:
  assumes "fst (injectGroupIntro p v) = Some e"
  shows "e = SaveFailed \<and> \<not> diskOk v"
  using assms
  by (simp add: injectGroupIntro_def saveSessionStore_def Let_def split: option.splits if_splits)

lemma injectGroupIntro_invariant:
  assumes "dedupInvariant p v"
  shows "dedupInvariant p (snd (snd (injectGroupIntro p v)))"
  using assms injectGroupIntro_streaming [of p v]
  by (simp add: dedupInvariant_def succeeded_def)

lemma updateSessionUsage_blockSettled:
  "blockSettled (snd (updateSessionUsage env p entry rr fp fm v)) = blockSettled v"
  by (simp add: updateSessionUsage_def writeEntry_def saveSessionStore_def Let_def
        split: option.splits)

lemma finishPayloads_blockSettled:
  "blockSettled (snd (finishPayloads env p entry filtered v)) = blockSettled v"
  by (simp add: finishPayloads_def saveSessionStore_def finalizeWithFollowup_def Let_def
        split: option.splits prod.splits)

lemma completeRun_unfold:
  assumes "injectGroupIntro p v = (None, entry, u)"
    and "w2 = awaitPendingBlockTasks ext u"
    and "filtered =
           filteredPayloads p w2
             (filterMessagingToolDuplicates env
                (replyTaggedPayloads env p w2
                   (sanitizedPayloads env p (case payloads rr of None \<Rightarrow> [] | Some ps \<Rightarrow> ps)))
                (case messagingToolSentTexts rr of None \<Rightarrow> [] | Some ts \<Rightarrow> ts))"
    and "w3 = (if shouldSignalTyping env filtered
               then w2\<lparr>typingCalls := typingCalls w2 @ signalRunStart (typingSignals p)\<rparr>
               else w2)"
    and "updateSessionUsage env p entry rr fp fm w3 = (e4, w4)"
  shows "completeRun env ext p rr fp fm v =
    (if payloads rr = None \<or> payloads rr = Some [] \<or> filtered = []
     then finalizeWithFollowup p NoReply w2
     else case e4 of Some x \<Rightarrow> (Inl x, w4) | None \<Rightarrow> finishPayloads env p entry filtered w4)"
  using assms by (auto simp add: completeRun_def Let_def split: option.splits)

lemma completeRun_failed:
  assumes "injectGroupIntro p v = (Some e, entry, u)"
  shows "completeRun env ext p rr fp fm v = (Inl SaveFailed, u)" and "\<not> diskOk v"
  using assms injectGroupIntro_error [of p v e] by (simp_all add: completeRun_def)

lemma completeRun_blockSettled:
  "blockSettled (snd (completeRun env ext p rr fp fm v)) =
     blockSettled (if fst (injectGroupIntro p v) = None
                   then awaitPendingBlockTasks ext (snd (snd (injectGroupIntro p v)))
                   else snd (snd (injectGroupIntro p v)))"
proof -
  obtain e entry u where gi: "injectGroupIntro p v = (e, entry, u)"
    by (cases "injectGroupIntro p v") auto
  show ?thesis
  proof (cases e)
    case (Some x)
    then show ?thesis using completeRun_failed(1) [of p v x entry u] gi by simp
  next
    case None
    define w2 where "w2 = awaitPendingBlockTasks ext u"
    define filtered where "filtered =
      filteredPayloads p w2
        (filterMessagingToolDuplicates env
           (replyTaggedPayloads env p w2
              (sanitizedPayloads env p (case payloads rr of None \<Rightarrow> [] | Some ps \<Rightarrow> ps)))
           (case messagingToolSentTexts rr of None \<Rightarrow> [] | Some ts \<Rightarrow> ts))"
    define w3 where "w3 =
      (if shouldSignalTyping env filtered
       then w2\<lparr>typingCalls := typingCalls w2 @ signalRunStart (typingSignals p)\<rparr> else w2)"
    obtain e4 w4 where us: "updateSessionUsage env p entry rr fp fm w3 = (e4, w4)"
      by (cases "updateSessionUsage env p entry rr fp fm w3") auto
    have w4: "blockSettled w4 = blockSettled w2"
      using updateSessionUsage_blockSettled [of env p entry rr fp fm w3] us
      by (simp add: w3_def)
    have unfold: "completeRun env ext p rr fp fm v =
      (if payloads rr = None \<or> payloads rr = Some [] \<or> filtered = []
       then finalizeWithFollowup p NoReply w2
       else case e4 of Some x \<Rightarrow> (Inl x, w4) | None \<Rightarrow> finishPayloads env p entry filtered w4)"
      using completeRun_unfold [OF _ w2_def filtered_def w3_def us] gi None by simp
    have "blockSettled (snd (completeRun env ext p rr fp fm v)) = blockSettled w2"
    proof (cases "payloads rr = None \<or> payloads rr = Some [] \<or> filtered = []")
      case True
      then show ?thesis by (simp add: unfold finalizeWithFollowup_def)
    next
      case False
      then show ?thesis
        using w4 finishPayloads_blockSettled [of env p entry filtered w4]
        by (cases e4) (auto simp add: unfold)
    qed
    then show ?thesis by (simp add: gi None w2_def)
  qed
qed

lemma completeRun_dropped:
  assumes "fst (injectGroupIntro p v) = None"
    and "blockStreamingEnabled p"
    and "didStreamBlockReply (awaitPendingBlockTasks ext (snd (snd (injectGroupIntro p v))))"
  shows "fst (completeRun env ext p rr fp fm v) = Inr NoReply"
proof -
  obtain entry u where gi: "injectGroupIntro p v = (None, entry, u)"
    using assms(1) by (cases "injectGroupIntro p v") auto
  have "filteredPayloads p (awaitPendingBlockTasks ext u) xs = []" for xs
    using assms(2,3) gi by (simp add: filteredPayloads_def)
  then show ?thesis
    using completeRun_unfold [OF gi refl refl refl surjective_pairing, where env = env]
    by (simp add: finalizeWithFollowup_def)
qed

lemma streamed_key:
  assumes "dedupInvariant p x" and "(k, True) \<in> set (blockSettled x)"
  shows "blockStreamingEnabled p \<and> didStreamBlockReply x"
  using assms by (force simp add: dedupInvariant_def succeeded_def filter_empty_conv)

lemma completeRun_streamed:
  assumes inv: "dedupInvariant p v"
    and hit: "(k, True) \<in> set (blockSettled (snd (completeRun env ext p rr fp fm v)))"
  shows "blockStreamingEnabled p \<and>
         (fst (completeRun env ext p rr fp fm v) = Inr NoReply \<or>
          \<not> diskOk v \<and> fst (completeRun env ext p rr fp fm v) = Inl SaveFailed)"
proof (cases "fst (injectGroupIntro p v)")
  case None
  have "dedupInvariant p (awaitPendingBlockTasks ext (snd (snd (injectGroupIntro p v))))"
    using awaitPendingBlockTasks_invariant [OF injectGroupIntro_invariant [OF inv]] .
  then have "blockStreamingEnabled p \<and>
      didStreamBlockReply (awaitPendingBlockTasks ext (snd (snd (injectGroupIntro p v))))"
    using streamed_key hit completeRun_blockSettled [of env ext p rr fp fm v] None by simp
  then show ?thesis using completeRun_dropped [OF None] by simp
next
  case (Some e)
  then obtain entry u where gi: "injectGroupIntro p v = (Some e, entry, u)"
    by (cases "injectGroupIntro p v") auto
  have "(k, True) \<in> set (blockSettled (snd (snd (injectGroupIntro p v))))"
    using hit completeRun_blockSettled [of env ext p rr fp fm v] Some by simp
  then have "blockStreamingEnabled p"
    using streamed_key [OF injectGroupIntro_invariant [OF inv]] by simp
  then show ?thesis using completeRun_failed [OF gi] by simp
qed

lemma completeRun_distinct:
  assumes "dedupInvariant p v"
  shows "distinct (succeeded (snd (completeRun env ext p rr fp fm v)))"
proof -
  have "dedupInvariant p (awaitPendingBlockTasks ext (snd (snd (injectGroupIntro p v))))"
    and "dedupInvariant p (snd (snd (injectGroupIntro p v)))"
    using awaitPendingBlockTasks_invariant injectGroupIntro_invariant assms by simp_all
  then show ?thesis
    using completeRun_blockSettled [of env ext p rr fp fm v]
    by (simp add: succeeded_def dedupInvariant_def split: if_splits)
qed


lemma runReplyAgent_turn:
  assumes "\<not> (shouldSteer p \<and> isStreaming p \<and> steerAccepted ext \<and> \<not> shouldFollowup p)"
    and "\<not> (isActive p \<and> (shouldFollowup p \<or> queueMode p = Steer))"
  obtains w1 where "runReplyAgent env ext p w = runTurn env ext p w1"
    and "sessionStore w1 = sessionStore w" and "savedStores w1 = savedStores w"
    and "diskOk w1 = diskOk w" and "files w1 = files w" and "clock w1 = clock w"
    and "blockSettled w1 = blockSettled w" and "enqueued w1 = enqueued w"
    and "drains w1 = drains w" and "delivered w1 = delivered w"
    and "agentTurns w1 = agentTurns w"
    and "streamedPayloadKeys w1 = []" and "pendingStreamedPayloadKeys w1 = []"
    and "\<not> didStreamBlockReply w1" and "\<not> autoCompactionCompleted w1"
proof (cases "shouldSteer p \<and> isStreaming p \<and> steerAccepted ext")
  case True
  show thesis
    by (rule that [of "(freshClosure w)\<lparr>steeredMessages := steeredMessages (freshClosure w) @
            [(runSessionId (followupRun p), prompt (followupRun p))]\<rparr>"])
       (use assms True in \<open>simp_all add: runReplyAgent_def Let_def freshClosure_def\<close>)
next
  case False
  show thesis
    by (rule that [of "freshClosure w"])
       (use assms False in \<open>auto simp add: runReplyAgent_def Let_def freshClosure_def\<close>)
qed

lemma touchSession_frame:
  "blockSettled (snd (touchSession p x)) = blockSettled x \<and>
   enqueued (snd (touchSession p x)) = enqueued x \<and>
   agentTurns (snd (touchSession p x)) = agentTurns x \<and>
   typingCalls (snd (touchSession p x)) = typingCalls x \<and>
   delivered (snd (touchSession p x)) = delivered x \<and>
   steeredMessages (snd (touchSession p x)) = steeredMessages x"
  by (simp add: touchSession_def saveSessionStore_def Let_def split: option.splits)

lemma runReplyAgent_early:
  assumes "(shouldSteer p \<and> isStreaming p \<and> steerAccepted ext \<and> \<not> shouldFollowup p) \<or>
           (isActive p \<and> (shouldFollowup p \<or> queueMode p = Steer))"
  shows "blockSettled (snd (runReplyAgent env ext p w)) = blockSettled w"
    and "replyPayloads (fst (runReplyAgent env ext p w)) = []"
proof -
  have "blockSettled (snd (case touchSession p x of
            (None, w2) \<Rightarrow> (Inr NoReply, w2\<lparr>typingCalls := typingCalls w2 @ [Cleanup]\<rparr>)
          | (Some e, w2) \<Rightarrow> (Inl e, w2))) = blockSettled x \<and>
        replyPayloads (fst (case touchSession p x of
            (None, w2) \<Rightarrow> (Inr NoReply, w2\<lparr>typingCalls := typingCalls w2 @ [Cleanup]\<rparr>)
          | (Some e, w2) \<Rightarrow> (Inl e, w2))) = []" for x
    using touchSession_frame [of p x]
    by (cases "touchSession p x") (auto split: option.splits)
  then show "blockSettled (snd (runReplyAgent env ext p w)) = blockSettled w"
    and "replyPayloads (fst (runReplyAgent env ext p w)) = []"
    using assms by (auto simp add: runReplyAgent_def Let_def freshClosure_def)
qed

lemma runReplyAgent_completes:
  assumes "\<not> (shouldSteer p \<and> isStreaming p \<and> steerAccepted ext \<and> \<not> shouldFollowup p)"
    and "\<not> (isActive p \<and> (shouldFollowup p \<or> queueMode p = Steer))"
    and "agentOutcome ext = Inr (rr, fp, fm)"
  obtains v where
    "runReplyAgent env ext p w =
       (fst (completeRun env ext p rr fp fm v),
        (snd (completeRun env ext p rr fp fm v))
          \<lparr>typingCalls := typingCalls (snd (completeRun env ext p rr fp fm v)) @ [MarkRunComplete]\<rparr>)"
    and "sessionStore v = sessionStore w" and "savedStores v = savedStores w"
    and "diskOk v = diskOk w" and "clock v = clock w"
    and "blockSettled w = [] \<Longrightarrow> dedupInvariant p v"
proof -
  obtain w1 where run: "runReplyAgent env ext p w = runTurn env ext p w1"
    and w1: "sessionStore w1 = sessionStore w" "savedStores w1 = savedStores w"
      "diskOk w1 = diskOk w" "clock w1 = clock w" "blockSettled w1 = blockSettled w"
      "streamedPayloadKeys w1 = []" "pendingStreamedPayloadKeys w1 = []"
    using runReplyAgent_turn [OF assms(1,2)] by metis
  define v where "v = handleEvents env p (agentEvents ext) (w1\<lparr>agentTurns := Suc (agentTurns w1)\<rparr>)"
  have "blockSettled w = [] \<Longrightarrow> dedupInvariant p (w1\<lparr>agentTurns := Suc (agentTurns w1)\<rparr>)"
    using w1 by (simp add: dedupInvariant_def succeeded_def)
  then have inv: "blockSettled w = [] \<Longrightarrow> dedupInvariant p v"
    using handleEvents_invariant by (simp add: v_def)
  have frame: "sessionStore v = sessionStore w" "savedStores v = savedStores w"
    "diskOk v = diskOk w" "clock v = clock w"
    using handleEvents_frame [of env p "agentEvents ext" "w1\<lparr>agentTurns := Suc (agentTurns w1)\<rparr>"] w1
    by (simp_all add: v_def)
  have "runReplyAgent env ext p w =
       (fst (completeRun env ext p rr fp fm v),
        (snd (completeRun env ext p rr fp fm v))
          \<lparr>typingCalls := typingCalls (snd (completeRun env ext p rr fp fm v)) @ [MarkRunComplete]\<rparr>)"
    by (simp add: run runTurn_def Let_def assms(3) v_def split: prod.splits)
  then show thesis using that frame inv by blast
qed

lemma streamed_run_drops_final:
  assumes "agentOutcome ext = Inr (rr, fp, fm)"
    and "blockSettled w = []"
    and "(k, True) \<in> set (blockSettled (snd (runReplyAgent env ext p w)))"
  shows "blockStreamingEnabled p \<and>
         (fst (runReplyAgent env ext p w) = Inr NoReply \<or>
          \<not> diskOk w \<and> fst (runReplyAgent env ext p w) = Inl SaveFailed)"
proof (cases "(shouldSteer p \<and> isStreaming p \<and> steerAccepted ext \<and> \<not> shouldFollowup p) \<or>
           (isActive p \<and> (shouldFollowup p \<or> queueMode p = Steer))")
  case True
  then show ?thesis using runReplyAgent_early(1) [OF True, of env w] assms(2,3) by simp
next
  case False
  then obtain v where run: "runReplyAgent env ext p w =
       (fst (completeRun env ext p rr fp fm v),
        (snd (completeRun env ext p rr fp fm v))
          \<lparr>typingCalls := typingCalls (snd (completeRun env ext p rr fp fm v)) @ [MarkRunComplete]\<rparr>)"
    and v: "diskOk v = diskOk w" "dedupInvariant p v"
    using runReplyAgent_completes [OF _ _ assms(1), of p env w] assms(2) by blast
  show ?thesis
    using completeRun_streamed [OF v(2), of k env ext rr fp fm] assms(3) v(1)
    by (simp add: run)
qed

lemma distinct_count_list:
  "distinct xs \<Longrightarrow> count_list xs k = (if k \<in> set xs then 1 else 0)"
  by (induction xs) auto

lemma handleRunFailure_blockSettled:
  "blockSettled (snd (handleRunFailure env p message v)) = blockSettled v"
  by (simp add: handleRunFailure_def finalizeWithFollowup_def saveSessionStore_def unlinkSync_def
        Let_def)

lemma runReplyAgent_distinct:
  assumes "blockSettled w = []"
  shows "distinct (succeeded (snd (runReplyAgent env ext p w)))"
proof (cases "(shouldSteer p \<and> isStreaming p \<and> steerAccepted ext \<and> \<not> shouldFollowup p) \<or>
           (isActive p \<and> (shouldFollowup p \<or> queueMode p = Steer))")
  case True
  then show ?thesis using runReplyAgent_early(1) [OF True, of env w] assms
    by (simp add: succeeded_def)
next
  case False
  then obtain w1 where run: "runReplyAgent env ext p w = runTurn env ext p w1"
    and w1: "blockSettled w1 = blockSettled w"
      "streamedPayloadKeys w1 = []" "pendingStreamedPayloadKeys w1 = []"
    using runReplyAgent_turn [of p ext env w] by metis
  define v where "v = handleEvents env p (agentEvents ext) (w1\<lparr>agentTurns := Suc (agentTurns w1)\<rparr>)"
  have "dedupInvariant p (w1\<lparr>agentTurns := Suc (agentTurns w1)\<rparr>)"
    using w1 assms by (simp add: dedupInvariant_def succeeded_def)
  then have inv: "dedupInvariant p v"
    using handleEvents_invariant by (simp add: v_def)
  show ?thesis
  proof (cases "agentOutcome ext")
    case (Inl message)
    then have "blockSettled (snd (runReplyAgent env ext p w)) = blockSettled v"
      using handleRunFailure_blockSettled [of env p message v]
      by (auto simp add: run runTurn_def Let_def v_def split: prod.splits)
    then show ?thesis using inv by (simp add: succeeded_def dedupInvariant_def)
  next
    case (Inr x)
    obtain rr fp fm where x: "x = (rr, fp, fm)" by (cases x) auto
    have "blockSettled (snd (runReplyAgent env ext p w)) =
          blockSettled (snd (completeRun env ext p rr fp fm v))"
      by (auto simp add: run runTurn_def Let_def v_def Inr x split: prod.splits)
    then show ?thesis using completeRun_distinct [OF inv, of env ext rr fp fm]
      by (simp add: succeeded_def)
  qed
qed

lemma onBlockReply_delivers_new_key:
  "delivered (onBlockReply env p payload v) = delivered v \<or>
   (\<exists>bp. delivered (onBlockReply env p payload v) = delivered v @ [BlockReply bp] \<and>
         buildPayloadKey bp \<notin> set (streamedPayloadKeys v) \<and>
         buildPayloadKey bp \<notin> set (pendingStreamedPayloadKeys v) \<and>
         pendingStreamedPayloadKeys (onBlockReply env p payload v) =
           pendingStreamedPayloadKeys v @ [buildPayloadKey bp])"
  by (simp add: onBlockReply_def Let_def setAdd_def split: option.splits)

lemma handleRunFailure_corrupted:
  assumes "isSessionCorruption message" and "truthy (sessionKey p)"
    and "sessionStore v = Some st" and "truthy (storePath p)"
  shows "fst (handleRunFailure env p message v) = Inr (Single (textPayload corruptedSessionText))"
    and "sessionStore (snd (handleRunFailure env p message v)) = Some (st(the (sessionKey p) := None))"
    and "files (snd (handleRunFailure env p message v)) =
           (case sessionEntry p of
              None \<Rightarrow> files v
            | Some e \<Rightarrow> if sessionId e \<noteq> [] then files v - {resolveSessionTranscriptPath env (sessionId e)}
                        else files v)"
    and "diskOk v \<Longrightarrow> savedStores (snd (handleRunFailure env p message v)) (the (storePath p)) =
           Some (st(the (sessionKey p) := None))"
  using assms
  by (auto simp add: handleRunFailure_def Let_def finalizeWithFollowup_def saveSessionStore_def
        unlinkSync_def truthy_def split: option.splits)

lemma runReplyAgent_fails:
  assumes "\<not> (shouldSteer p \<and> isStreaming p \<and> steerAccepted ext \<and> \<not> shouldFollowup p)"
    and "\<not> (isActive p \<and> (shouldFollowup p \<or> queueMode p = Steer))"
    and "agentOutcome ext = Inl message"
  obtains v where
    "runReplyAgent env ext p w =
       (fst (handleRunFailure env p message v),
        (snd (handleRunFailure env p message v))
          \<lparr>typingCalls := typingCalls (snd (handleRunFailure env p message v)) @ [MarkRunComplete]\<rparr>)"
    and "sessionStore v = sessionStore w" and "savedStores v = savedStores w"
    and "diskOk v = diskOk w" and "files v = files w"
proof -
  obtain w1 where run: "runReplyAgent env ext p w = runTurn env ext p w1"
    and w1: "sessionStore w1 = sessionStore w" "savedStores w1 = savedStores w"
      "diskOk w1 = diskOk w" "files w1 = files w"
    using runReplyAgent_turn [OF assms(1,2)] by metis
  define v where "v = handleEvents env p (agentEvents ext) (w1\<lparr>agentTurns := Suc (agentTurns w1)\<rparr>)"
  have frame: "sessionStore v = sessionStore w" "savedStores v = savedStores w"
    "diskOk v = diskOk w" "files v = files w"
    using handleEvents_frame [of env p "agentEvents ext" "w1\<lparr>agentTurns := Suc (agentTurns w1)\<rparr>"] w1
    by (simp_all add: v_def)
  have "runReplyAgent env ext p w =
       (fst (handleRunFailure env p message v),
        (snd (handleRunFailure env p message v))
          \<lparr>typingCalls := typingCalls (snd (handleRunFailure env p message v)) @ [MarkRunComplete]\<rparr>)"
    by (simp add: run runTurn_def Let_def assms(3) v_def split: prod.splits)
  then show thesis using that frame by blast
qed

section \<open>Failures of the model call and error texts\<close>

lemma handleRunFailure_other:
  assumes "\<not> (isSessionCorruption message \<and> truthy (sessionKey p) \<and> sessionStore v \<noteq> None \<and>
              truthy (storePath p))"
  shows "handleRunFailure env p message v =
           (Inr (Single (textPayload
              (if isContextOverflow message then contextOverflowText else agentFailedText message))),
            v\<lparr>drains := drains v @ [queueKey p]\<rparr>)"
  using assms by (auto simp add: handleRunFailure_def finalizeWithFollowup_def)

lemma runReplyAgent_failure_text:
  assumes "agentOutcome ext = Inl message"
    and "\<not> (isSessionCorruption message \<and> truthy (sessionKey p) \<and> sessionStore w \<noteq> None \<and>
              truthy (storePath p))"
    and "\<not> (shouldSteer p \<and> isStreaming p \<and> steerAccepted ext \<and> \<not> shouldFollowup p)"
    and "\<not> (isActive p \<and> (shouldFollowup p \<or> queueMode p = Steer))"
  shows "fst (runReplyAgent env ext p w) =
           Inr (Single (textPayload
              (if isContextOverflow message then contextOverflowText else agentFailedText message)))"
    and "sessionStore (snd (runReplyAgent env ext p w)) = sessionStore w"
proof -
  obtain v where run: "runReplyAgent env ext p w =
       (fst (handleRunFailure env p message v),
        (snd (handleRunFailure env p message v))
          \<lparr>typingCalls := typingCalls (snd (handleRunFailure env p message v)) @ [MarkRunComplete]\<rparr>)"
    and v: "sessionStore v = sessionStore w"
    using runReplyAgent_fails [OF assms(3,4,1)] by metis
  have other: "\<not> (isSessionCorruption message \<and> truthy (sessionKey p) \<and> sessionStore v \<noteq> None \<and>
              truthy (storePath p))"
    using assms(2) v by simp
  show "fst (runReplyAgent env ext p w) =
           Inr (Single (textPayload
              (if isContextOverflow message then contextOverflowText else agentFailedText message)))"
    and "sessionStore (snd (runReplyAgent env ext p w)) = sessionStore w"
    using handleRunFailure_other [OF other, of env] v by (simp_all add: run)
qed

lemma formatAssistantErrorText_bound:
  assumes "formatAssistantErrorText msg = Some out"
  shows "length out \<le> 601 \<or> startsWith out (js ''LLM request rejected: '')"
  using assms
  by (auto simp add: formatAssistantErrorText_def Let_def js_def startsWith_def
        split: if_splits option.splits)

lemma startsWith_set:
  "startsWith s pat \<Longrightarrow> set pat \<subseteq> set s"
  by (metis startsWith_def set_take_subset)

lemma includesStr_set:
  "includesStr s pat \<Longrightarrow> set pat \<subseteq> set s"
proof (induction s)
  case Nil
  then show ?case by simp
next
  case (Cons c s)
  then show ?case using startsWith_set [of "c # s" pat] by auto
qed

lemma contextThenOverflow_set:
  "contextThenOverflow s \<Longrightarrow> 99 \<in> set s"
proof (induction s)
  case Nil
  then show ?case by simp
next
  case (Cons c s)
  then show ?case
  proof (cases "startsWith (c # s) (js ''context'')")
    case True
    then show ?thesis using startsWith_set [OF True] by (simp add: js_def)
  next
    case False
    then show ?thesis using Cons by simp
  qed
qed

lemma plain_message:
  assumes "set message \<subseteq> {97}"
  shows "\<not> isSessionCorruption message" and "\<not> isContextOverflow message"
proof -
  have "map lowerAscii xs = xs" if "set xs \<subseteq> {97}" for xs
    using that by (induction xs) (simp_all add: lowerAscii_def)
  then have low: "toLowerCase message = message"
    using assms by (simp add: toLowerCase_def)
  show "\<not> isSessionCorruption message"
    using includesStr_set [of message "js ''function call turn comes immediately after''"] assms
    by (auto simp add: isSessionCorruption_def low js_def)
  show "\<not> isContextOverflow message"
    using includesStr_set [of message "js ''too large''"]
      includesStr_set [of message "js ''context window''"]
      contextThenOverflow_set [of message] assms
    by (auto simp add: isContextOverflow_def low js_def Let_def)
qed

lemma plain_raw:
  assumes "set raw \<subseteq> {97}"
  shows "trim raw = raw" and "\<not> isContextOverflowError (Some raw)"
    and "matchInvalidRequest raw = None"
proof -
  have notrim: "dropWhile isWhiteSpace xs = xs" if "set xs \<subseteq> {97}" for xs
    using that by (cases xs) (simp_all add: isWhiteSpace_def isLineTerminator_def)
  have "set (rev raw) \<subseteq> {97}" using assms(1) by simp
  then show "trim raw = raw"
    using notrim [of raw] notrim [of "rev raw"] assms(1)
    by (simp add: trim_def trimStart_def trimEnd_def)
  have "map lowerAscii xs = xs" if "set xs \<subseteq> {97}" for xs
    using that by (induction xs) (simp_all add: lowerAscii_def)
  then have low: "toLowerCase raw = raw"
    using assms(1) by (simp add: toLowerCase_def)
  have none: "\<not> includesStr raw (js pat)" if "hd (js pat) \<noteq> 97" "js pat \<noteq> []" for pat
    using includesStr_set [of raw "js pat"] that assms(1)
    by (cases "js pat") auto
  show "\<not> isContextOverflowError (Some raw)"
    using none [of "''request_too_large''"] none [of "''request exceeds the maximum size''"]
      none [of "''context length exceeded''"] none [of "''maximum context length''"]
      none [of "''413''"]
    by (simp add: isContextOverflowError_def low Let_def js_def)
  have mm: "matchMessage xs = None" if "set xs \<subseteq> {97}" for xs
    using that
  proof (induction xs)
    case Nil
    then show ?case by simp
  next
    case (Cons c xs)
    have "\<not> startsWith (c # xs) (quoted ''message'' @ js '':'' @ [34])"
      using startsWith_set [of "c # xs" "quoted ''message'' @ js '':'' @ [34]"] Cons.prems
      by (auto simp add: quoted_def)
    then show ?case using Cons by (simp add: Let_def isLineTerminator_def)
  qed
  have mi: "matchInvalidRequest xs = None" if "set xs \<subseteq> {97}" for xs
    using that
  proof (induction xs)
    case Nil
    then show ?case by simp
  next
    case (Cons c xs)
    have "\<not> startsWith (c # xs) (quoted ''type'' @ js '':'' @ quoted ''invalid_request_error'')"
      using startsWith_set [of "c # xs" "quoted ''type'' @ js '':'' @ quoted ''invalid_request_error''"]
        Cons.prems
      by (auto simp add: quoted_def)
    then show ?case using Cons by (simp add: Let_def)
  qed
  show "matchInvalidRequest raw = None" using mi [OF assms] .
qed

lemma formatAssistantErrorText_cut:
  assumes "stopReason msg = js ''error''" and "errorMessage msg = Some m"
    and "\<not> isContextOverflowError (Some (trim m))" and "matchInvalidRequest (trim m) = None"
    and "trim m \<noteq> []"
  shows "formatAssistantErrorText msg =
           Some (if length (trim m) > 600 then take 600 (trim m) @ [8230] else trim m)"
  using assms by (simp add: formatAssistantErrorText_def Let_def)


section \<open>The typing signaler in thinking mode\<close>

text \<open>
  C9, as the code has it. In thinking mode, outside a heartbeat run, every reasoning
  delta calls \<open>startTypingLoop\<close> and then refreshes the TTL, so typing starts with
  the first one; a text delta only refreshes the TTL; a tool start calls
  \<open>startTypingLoop\<close> and does not refresh the TTL; the run start makes no call.
\<close>

theorem thinking_mode_signals:
  "signals (createTypingSignaler Thinking False) evs =
     concat (map (\<lambda>e. case e of
                        RunStart \<Rightarrow> []
                      | TextDelta t \<Rightarrow> [RefreshTypingTtl]
                      | ReasoningDelta \<Rightarrow> [StartTypingLoop, RefreshTypingTtl]
                      | ToolStart \<Rightarrow> [StartTypingLoop]) evs)"
proof -
  have "signal (createTypingSignaler Thinking False) e =
          (case e of RunStart \<Rightarrow> [] | TextDelta t \<Rightarrow> [RefreshTypingTtl]
             | ReasoningDelta \<Rightarrow> [StartTypingLoop, RefreshTypingTtl]
             | ToolStart \<Rightarrow> [StartTypingLoop])" for e
    by (cases e)
       (simp_all add: createTypingSignaler_def signalRunStart_def signalTextDelta_def
          signalReasoningDelta_def signalToolStart_def)
  then have "signal (createTypingSignaler Thinking False) =
          (\<lambda>e. case e of RunStart \<Rightarrow> [] | TextDelta t \<Rightarrow> [RefreshTypingTtl]
             | ReasoningDelta \<Rightarrow> [StartTypingLoop, RefreshTypingTtl]
             | ToolStart \<Rightarrow> [StartTypingLoop])"
    by (intro ext)
  then show ?thesis
    by (simp add: signals_def)
qed

text \<open>
  C9 as stated fails: after the first reasoning delta a tool start calls
  \<open>startTypingLoop\<close> again and refreshes nothing.
\<close>

theorem tool_start_restarts_typing:
  "signals (createTypingSignaler Thinking False) [ReasoningDelta, ToolStart] =
     [StartTypingLoop, RefreshTypingTtl, StartTypingLoop] \<and>
   signalToolStart (createTypingSignaler Thinking False) \<noteq> [RefreshTypingTtl]"
  by (simp add: signals_def createTypingSignaler_def signalReasoningDelta_def signalToolStart_def)

section \<open>Silent blocks\<close>

text \<open>
  C10. A streamed block whose text, after reply tagging and audio-tag extraction, is
  the silent-reply token once trimmed, and which carries no media, leaves the whole
  state as it was: no key is put in flight or counted as streamed, and the
  block-reply callback is not invoked. A text equal to the token is such a text
  when the token has no white space around it.
\<close>

theorem silent_block_suppressed:
  assumes "stripStreamText env p payload = Some text"
    and "map_option trim (cleanedText env (taggedPayload env p payload text)) =
           Some (SILENT_REPLY_TOKEN env)"
    and "\<not> hasMedia (taggedPayload env p payload text)"
  shows "onBlockReply env p payload w = w"
  using assms by (simp add: onBlockReply_def Let_def)

theorem silent_block_suppressed_witness:
  "stripStreamText sampleEnv sampleParams (streamPayload (Some (js ''NO_REPLY'')) None) =
     Some (Some (js ''NO_REPLY'')) \<and>
   map_option trim (cleanedText sampleEnv
      (taggedPayload sampleEnv sampleParams (streamPayload (Some (js ''NO_REPLY'')) None)
         (Some (js ''NO_REPLY'')))) = Some (SILENT_REPLY_TOKEN sampleEnv) \<and>
   \<not> hasMedia (taggedPayload sampleEnv sampleParams (streamPayload (Some (js ''NO_REPLY'')) None)
         (Some (js ''NO_REPLY''))) \<and>
   onBlockReply sampleEnv sampleParams (streamPayload (Some (js ''NO_REPLY'')) None) sampleWorld =
     sampleWorld"
proof -
  have h1: "stripStreamText sampleEnv sampleParams (streamPayload (Some (js ''NO_REPLY'')) None) =
     Some (Some (js ''NO_REPLY''))"
    by (simp add: stripStreamText_def sample_defs string_defs)
  have h2: "map_option trim (cleanedText sampleEnv
      (taggedPayload sampleEnv sampleParams (streamPayload (Some (js ''NO_REPLY'')) None)
         (Some (js ''NO_REPLY'')))) = Some (SILENT_REPLY_TOKEN sampleEnv)"
    by (simp add: cleanedText_def taggedPayload_def firstMediaUrl_def sample_defs string_defs)
  have h3: "\<not> hasMedia (taggedPayload sampleEnv sampleParams (streamPayload (Some (js ''NO_REPLY'')) None)
         (Some (js ''NO_REPLY'')))"
    by (simp add: taggedPayload_def firstMediaUrl_def hasMedia_def hasMediaUrls_def truthy_def sample_defs)
  from silent_block_suppressed [OF h1 h2 h3, of sampleWorld] h1 h2 h3 show ?thesis
    by simp
qed

section \<open>Final payloads after streamed blocks\<close>

text \<open>
  C2, as the code has it. In a run whose model call returns and in which at least
  one block delivery succeeded, block streaming is enabled and every final payload
  is dropped, whatever its key: the run returns no payload. (The one other ending
  is the failure to save the group introduction flag when the store cannot be
  written.) The record of settled deliveries is taken empty at the start.
\<close>

theorem streamed_blocks_drop_final_payloads:
  assumes "agentOutcome ext = Inr (rr, fp, fm)"
    and "blockSettled w = []"
    and "(k, True) \<in> set (blockSettled (snd (runReplyAgent env ext p w)))"
  shows "blockStreamingEnabled p \<and>
         (fst (runReplyAgent env ext p w) = Inr NoReply \<or>
          \<not> diskOk w \<and> fst (runReplyAgent env ext p w) = Inl SaveFailed)"
  using streamed_run_drops_final [OF assms] .


theorem streamed_blocks_drop_final_payloads_witness:
  "agentOutcome (returning [OnBlockReply (streamPayload (Some (js ''A'')) None)]
          (sampleResult [textPayload (js ''A'')] None)) =
     Inr (sampleResult [textPayload (js ''A'')] None, js ''anthropic'', js ''m1'') \<and>
   blockSettled sampleWorld = [] \<and>
   (([65], [], None), True) \<in> set (blockSettled (snd (runReplyAgent sampleEnv
       (returning [OnBlockReply (streamPayload (Some (js ''A'')) None)]
          (sampleResult [textPayload (js ''A'')] None))
       sampleParams sampleWorld))) \<and>
   blockStreamingEnabled sampleParams \<and>
   fst (runReplyAgent sampleEnv
       (returning [OnBlockReply (streamPayload (Some (js ''A'')) None)]
          (sampleResult [textPayload (js ''A'')] None))
       sampleParams sampleWorld) = Inr NoReply"
proof -
  have h1: "agentOutcome (returning [OnBlockReply (streamPayload (Some (js ''A'')) None)]
          (sampleResult [textPayload (js ''A'')] None)) =
     Inr (sampleResult [textPayload (js ''A'')] None, js ''anthropic'', js ''m1'')"
    by (simp add: returning_def)
  have h2: "blockSettled sampleWorld = []"
    by (simp add: sampleWorld_def)
  have h3: "(([65], [], None), True) \<in> set (blockSettled (snd (runReplyAgent sampleEnv
       (returning [OnBlockReply (streamPayload (Some (js ''A'')) None)]
          (sampleResult [textPayload (js ''A'')] None))
       sampleParams sampleWorld)))"
    by (simp add: run_defs sample_defs string_defs)
  have h4: "diskOk sampleWorld"
    by (simp add: sampleWorld_def)
  from streamed_blocks_drop_final_payloads [OF h1 h2 h3] h1 h2 h3 h4 show ?thesis
    by simp
qed

text \<open>
  C2 as stated fails: block \<open>A\<close> was streamed, the final payload \<open>B\<close> has a key
  that matches no streamed block, and the run still returns nothing.
\<close>

theorem unmatched_final_payload_dropped:
  "succeeded (snd (runReplyAgent sampleEnv
       (returning [OnBlockReply (streamPayload (Some (js ''A'')) None)]
          (sampleResult [textPayload (js ''B'')] None))
       sampleParams sampleWorld)) = [([65], [], None)] \<and>
   buildPayloadKey (textPayload (js ''B'')) = ([66], [], None) \<and>
   fst (runReplyAgent sampleEnv
       (returning [OnBlockReply (streamPayload (Some (js ''A'')) None)]
          (sampleResult [textPayload (js ''B'')] None))
       sampleParams sampleWorld) = Inr NoReply"
  by (simp add: run_defs sample_defs string_defs)

section \<open>Deduplication of blocks\<close>

lemma settleBlockReply_pending:
  "pendingStreamedPayloadKeys (settleBlockReply k ok w) = removeAll k (pendingStreamedPayloadKeys w)"
  by (simp add: settleBlockReply_def setDelete_def)

lemma settleAll_pending:
  "pendingStreamedPayloadKeys (foldl (\<lambda>v k. settleBlockReply k (f k) v) w ks) =
     filter (\<lambda>k. k \<notin> set ks) (pendingStreamedPayloadKeys w)"
proof (induction ks arbitrary: w)
  case Nil
  show ?case by simp
next
  case (Cons k ks)
  have "(\<lambda>x. k \<noteq> x \<and> x \<notin> set ks) = (\<lambda>x. x \<noteq> k \<and> x \<notin> set ks)"
    by auto
  then show ?case
    by (simp add: Cons.IH settleBlockReply_pending removeAll_filter_not_eq)
qed

lemma awaitPendingBlockTasks_pending:
  "pendingStreamedPayloadKeys (awaitPendingBlockTasks ext w) = []"
  by (simp add: awaitPendingBlockTasks_def settleAll_pending)

lemma updateSessionUsage_pending:
  "pendingStreamedPayloadKeys (snd (updateSessionUsage env p entry rr fp fm v)) =
     pendingStreamedPayloadKeys v"
  by (simp add: updateSessionUsage_def writeEntry_def saveSessionStore_def Let_def
        split: option.splits)

lemma finishPayloads_pending:
  "pendingStreamedPayloadKeys (snd (finishPayloads env p entry filtered v)) =
     pendingStreamedPayloadKeys v"
  by (simp add: finishPayloads_def saveSessionStore_def finalizeWithFollowup_def Let_def
        split: option.splits prod.splits)

lemma completeRun_pending:
  assumes "fst (completeRun env ext p rr fp fm v) = Inr r"
  shows "pendingStreamedPayloadKeys (snd (completeRun env ext p rr fp fm v)) = []"
proof -
  obtain g entry u where gi: "injectGroupIntro p v = (g, entry, u)"
    by (cases "injectGroupIntro p v") auto
  have g: "g = None"
  proof (cases g)
    case (Some x)
    then show ?thesis using completeRun_failed(1) [of p v x entry u env ext rr fp fm] gi assms
      by simp
  qed simp
  note gi = gi [unfolded g]
  define w2 where "w2 = awaitPendingBlockTasks ext u"
  define filtered where "filtered =
      filteredPayloads p w2
        (filterMessagingToolDuplicates env
           (replyTaggedPayloads env p w2
              (sanitizedPayloads env p (case payloads rr of None \<Rightarrow> [] | Some ps \<Rightarrow> ps)))
           (case messagingToolSentTexts rr of None \<Rightarrow> [] | Some ts \<Rightarrow> ts))"
  define w3 where "w3 =
      (if shouldSignalTyping env filtered
       then w2\<lparr>typingCalls := typingCalls w2 @ signalRunStart (typingSignals p)\<rparr> else w2)"
  obtain e4 w4 where us: "updateSessionUsage env p entry rr fp fm w3 = (e4, w4)"
    by (cases "updateSessionUsage env p entry rr fp fm w3") auto
  have w2: "pendingStreamedPayloadKeys w2 = []"
    by (simp add: w2_def awaitPendingBlockTasks_pending)
  have w4: "pendingStreamedPayloadKeys w4 = []"
    using updateSessionUsage_pending [of env p entry rr fp fm w3] us w2 by (simp add: w3_def)
  have unfold: "completeRun env ext p rr fp fm v =
      (if payloads rr = None \<or> payloads rr = Some [] \<or> filtered = []
       then finalizeWithFollowup p NoReply w2
       else case e4 of Some x \<Rightarrow> (Inl x, w4) | None \<Rightarrow> finishPayloads env p entry filtered w4)"
    using completeRun_unfold [OF gi w2_def filtered_def w3_def us] .
  show ?thesis
  proof (cases "payloads rr = None \<or> payloads rr = Some [] \<or> filtered = []")
    case True
    then show ?thesis using w2 by (simp add: unfold finalizeWithFollowup_def)
  next
    case False
    then show ?thesis
      using w4 finishPayloads_pending [of env p entry filtered w4]
      by (cases e4) (auto simp add: unfold)
  qed
qed

lemma touchSession_pending:
  "pendingStreamedPayloadKeys (snd (touchSession p x)) = pendingStreamedPayloadKeys x"
  by (simp add: touchSession_def saveSessionStore_def Let_def split: option.splits)

lemma runReplyAgent_pending:
  assumes "agentOutcome ext = Inr (rr, fp, fm)" and "fst (runReplyAgent env ext p w) = Inr r"
  shows "pendingStreamedPayloadKeys (snd (runReplyAgent env ext p w)) = []"
proof (cases "(shouldSteer p \<and> isStreaming p \<and> steerAccepted ext \<and> \<not> shouldFollowup p) \<or>
           (isActive p \<and> (shouldFollowup p \<or> queueMode p = Steer))")
  case True
  have "pendingStreamedPayloadKeys (snd (case touchSession p x of
            (None, w2) \<Rightarrow> (Inr NoReply, w2\<lparr>typingCalls := typingCalls w2 @ [Cleanup]\<rparr>)
          | (Some e, w2) \<Rightarrow> (Inl e, w2))) = pendingStreamedPayloadKeys x" for x
    using touchSession_pending [of p x]
    by (cases "touchSession p x") (auto split: option.splits)
  then show ?thesis
    using True by (auto simp add: runReplyAgent_def Let_def freshClosure_def)
next
  case False
  then obtain v where run: "runReplyAgent env ext p w =
       (fst (completeRun env ext p rr fp fm v),
        (snd (completeRun env ext p rr fp fm v))
          \<lparr>typingCalls := typingCalls (snd (completeRun env ext p rr fp fm v)) @ [MarkRunComplete]\<rparr>)"
    using runReplyAgent_completes [OF _ _ assms(1), of p env w] by blast
  show ?thesis
    using completeRun_pending [of env ext p rr fp fm v r] assms(2) by (simp add: run)
qed

text \<open>
  C8, as the code has it. The key of a payload is its trimmed text, its media list
  (\<open>mediaUrls\<close> when not empty, else the one \<open>mediaUrl\<close>, else nothing) and its
  \<open>replyToId\<close>. Within one run no key succeeds twice as a block; when the model
  call returns and a block with key \<open>k\<close> was delivered, exactly one payload with
  that key is delivered overall, since no final payload is returned then; when the
  model call returns and the run returns a value, no block delivery is in flight
  any more; and whenever the block callback is invoked, the payload's key was
  neither delivered nor in flight, and is in flight from then on. Final payloads
  are not compared with each other.
\<close>

theorem block_dedup:
  assumes "blockSettled w = []"
  shows "buildPayloadKey payload =
           (case ptext payload of None \<Rightarrow> [] | Some t \<Rightarrow> trim t,
            case mediaUrls payload of
              Some (m # ms) \<Rightarrow> m # ms
            | _ \<Rightarrow> (case mediaUrl payload of Some (c # cs) \<Rightarrow> [c # cs] | _ \<Rightarrow> []),
            replyToId payload) \<and>
         count_list (succeeded (snd (runReplyAgent env ext p w))) k \<le> 1 \<and>
         (agentOutcome ext = Inr (rr, fp, fm) \<longrightarrow>
          k \<in> set (succeeded (snd (runReplyAgent env ext p w))) \<longrightarrow>
          deliveredWithKey k (runReplyAgent env ext p w) = 1) \<and>
         (agentOutcome ext = Inr (rr, fp, fm) \<longrightarrow> fst (runReplyAgent env ext p w) = Inr r \<longrightarrow>
          pendingStreamedPayloadKeys (snd (runReplyAgent env ext p w)) = []) \<and>
         (delivered (onBlockReply env p payload v) = delivered v \<or>
          (\<exists>bp. delivered (onBlockReply env p payload v) = delivered v @ [BlockReply bp] \<and>
                buildPayloadKey bp \<notin> set (streamedPayloadKeys v) \<and>
                buildPayloadKey bp \<notin> set (pendingStreamedPayloadKeys v) \<and>
                pendingStreamedPayloadKeys (onBlockReply env p payload v) =
                  pendingStreamedPayloadKeys v @ [buildPayloadKey bp]))"
proof -
  have key: "buildPayloadKey payload =
           (case ptext payload of None \<Rightarrow> [] | Some t \<Rightarrow> trim t,
            case mediaUrls payload of
              Some (m # ms) \<Rightarrow> m # ms
            | _ \<Rightarrow> (case mediaUrl payload of Some (c # cs) \<Rightarrow> [c # cs] | _ \<Rightarrow> []),
            replyToId payload)"
    by (simp add: buildPayloadKey_def hasMediaUrls_def truthy_def Let_def
          split: option.splits list.splits)
  have d: "distinct (succeeded (snd (runReplyAgent env ext p w)))"
    using runReplyAgent_distinct [OF assms] .
  then have once: "count_list (succeeded (snd (runReplyAgent env ext p w))) k \<le> 1"
    by (simp add: distinct_count_list)
  have one: "deliveredWithKey k (runReplyAgent env ext p w) = 1"
    if ok: "agentOutcome ext = Inr (rr, fp, fm)"
      and k: "k \<in> set (succeeded (snd (runReplyAgent env ext p w)))"
  proof -
    have "(k, True) \<in> set (blockSettled (snd (runReplyAgent env ext p w)))"
      using k by (auto simp add: succeeded_def)
    then have "replyPayloads (fst (runReplyAgent env ext p w)) = []"
      using streamed_run_drops_final [OF ok assms, of k env p] by auto
    moreover have "count_list (succeeded (snd (runReplyAgent env ext p w))) k = 1"
      using d k by (simp add: distinct_count_list)
    ultimately show ?thesis by (simp add: deliveredWithKey_def)
  qed
  have settled: "pendingStreamedPayloadKeys (snd (runReplyAgent env ext p w)) = []"
    if "agentOutcome ext = Inr (rr, fp, fm)" "fst (runReplyAgent env ext p w) = Inr r"
    using runReplyAgent_pending [OF that] .
  show ?thesis
    using key once one settled onBlockReply_delivers_new_key [of env p payload v] by blast
qed

theorem block_dedup_witness:
  "blockSettled sampleWorld = [] \<and>
   buildPayloadKey
     \<lparr> ptext = Some (js '' K ''), mediaUrl = Some (js ''u''), mediaUrls = None,
       replyToId = Some (js ''r''), audioAsVoice = None, isError = False \<rparr> =
     ([75], [[117]], Some [114]) \<and>
   ([75], [], None) \<in> set (succeeded (snd (runReplyAgent sampleEnv
       (returning [OnBlockReply (streamPayload (Some (js ''K'')) None),
                   OnBlockReply (streamPayload (Some (js '' K '')) None)]
          (sampleResult [textPayload (js ''K'')] None))
       sampleParams sampleWorld))) \<and>
   deliveredWithKey ([75], [], None) (runReplyAgent sampleEnv
       (returning [OnBlockReply (streamPayload (Some (js ''K'')) None),
                   OnBlockReply (streamPayload (Some (js '' K '')) None)]
          (sampleResult [textPayload (js ''K'')] None))
       sampleParams sampleWorld) = 1 \<and>
   pendingStreamedPayloadKeys (snd (runReplyAgent sampleEnv
       (returning [OnBlockReply (streamPayload (Some (js ''K'')) None),
                   OnBlockReply (streamPayload (Some (js '' K '')) None)]
          (sampleResult [textPayload (js ''K'')] None))
       sampleParams sampleWorld)) = [] \<and>
   delivered (snd (runReplyAgent sampleEnv
       (returning [OnBlockReply (streamPayload (Some (js ''K'')) None),
                   OnBlockReply (streamPayload (Some (js '' K '')) None)]
          (sampleResult [textPayload (js ''K'')] None))
       sampleParams sampleWorld)) =
     [BlockReply ((streamPayload (Some (js ''K'')) None)\<lparr>audioAsVoice := Some False\<rparr>)]"
proof -
  define ext where "ext = returning [OnBlockReply (streamPayload (Some (js ''K'')) None),
                   OnBlockReply (streamPayload (Some (js '' K '')) None)]
          (sampleResult [textPayload (js ''K'')] None)"
  define q where "q = \<lparr> ptext = Some (js '' K ''), mediaUrl = Some (js ''u''), mediaUrls = None,
       replyToId = Some (js ''r''), audioAsVoice = None, isError = False \<rparr>"
  have h1: "blockSettled sampleWorld = []"
    by (simp add: sampleWorld_def)
  have h2: "agentOutcome ext =
     Inr (sampleResult [textPayload (js ''K'')] None, js ''anthropic'', js ''m1'')"
    by (simp add: ext_def returning_def)
  have h3: "([75], [], None) \<in> set (succeeded (snd (runReplyAgent sampleEnv ext
       sampleParams sampleWorld)))"
    by (simp add: ext_def run_defs sample_defs string_defs)
  have h4: "fst (runReplyAgent sampleEnv ext sampleParams sampleWorld) = Inr NoReply"
    by (simp add: ext_def run_defs sample_defs string_defs)
  have h5: "delivered (snd (runReplyAgent sampleEnv ext sampleParams sampleWorld)) =
     [BlockReply ((streamPayload (Some (js ''K'')) None)\<lparr>audioAsVoice := Some False\<rparr>)]"
    by (simp add: ext_def run_defs sample_defs string_defs)
  have h6: "ptext q = Some (js '' K '')" "mediaUrls q = None" "mediaUrl q = Some (js ''u'')"
    "replyToId q = Some (js ''r'')" "trim (js '' K '') = [75]" "js ''u'' = [117]" "js ''r'' = [114]"
    by (simp_all add: q_def string_defs)
  from block_dedup [OF h1, of q sampleEnv ext sampleParams "([75], [], None)"]
    h1 h2 h3 h4 h5 h6
  show ?thesis unfolding ext_def [symmetric] q_def [symmetric] by simp
qed

text \<open>
  C8 as stated fails: with no block streamed, two final payloads with the same key
  are both returned.
\<close>

theorem repeated_final_payload_delivered_twice:
  "deliveredWithKey ([65], [], None)
     (runReplyAgent sampleEnv
        (returning [] (sampleResult [textPayload (js ''A''), textPayload (js ''A'')] None))
        sampleParams sampleWorld) = 2"
  by (simp add: run_defs sample_defs string_defs)

section \<open>Recovery from a corrupted session\<close>

text \<open>
  C6. When the call starts a turn and the model call fails with a message that
  matches the malformed-history signature, given a session key, a store and a store
  path, the function returns one payload, whose only content is the apology text
  of the source, and no error; the entry is
  removed from the store object, every other entry kept; the transcript file of the
  entry's session id, when the entry has one, is removed; and the store is saved
  without the entry when the disk can be written.
\<close>

theorem session_corruption_recovery:
  assumes "agentOutcome ext = Inl message"
    and "isSessionCorruption message"
    and "truthy (sessionKey p)" and "sessionStore w = Some st" and "truthy (storePath p)"
    and "\<not> (shouldSteer p \<and> isStreaming p \<and> steerAccepted ext \<and> \<not> shouldFollowup p)"
    and "\<not> (isActive p \<and> (shouldFollowup p \<or> queueMode p = Steer))"
  shows "fst (runReplyAgent env ext p w) =
           Inr (Single
             \<lparr> ptext = Some ([9888, 65039] @ js '' Session history was corrupted. I'' @ [39] @
                              js ''ve reset the conversation - please try again!''),
               mediaUrl = None, mediaUrls = None, replyToId = None, audioAsVoice = None,
               isError = False \<rparr>) \<and>
         sessionStore (snd (runReplyAgent env ext p w)) = Some (st(the (sessionKey p) := None)) \<and>
         files (snd (runReplyAgent env ext p w)) =
           (case sessionEntry p of
              None \<Rightarrow> files w
            | Some e \<Rightarrow> if sessionId e \<noteq> [] then files w - {resolveSessionTranscriptPath env (sessionId e)}
                        else files w) \<and>
         (diskOk w \<longrightarrow>
            savedStores (snd (runReplyAgent env ext p w)) (the (storePath p)) =
              Some (st(the (sessionKey p) := None)))"
proof -
  obtain v where run: "runReplyAgent env ext p w =
       (fst (handleRunFailure env p message v),
        (snd (handleRunFailure env p message v))
          \<lparr>typingCalls := typingCalls (snd (handleRunFailure env p message v)) @ [MarkRunComplete]\<rparr>)"
    and v: "sessionStore v = sessionStore w" "diskOk v = diskOk w" "files v = files w"
    using runReplyAgent_fails [OF assms(6,7,1)] by metis
  have st: "sessionStore v = Some st" using v assms(4) by simp
  show ?thesis
    using handleRunFailure_corrupted [OF assms(2,3) st assms(5), of env] v
    by (simp add: run textPayload_def corruptedSessionText_def warningSign_def split: option.splits)
qed

theorem session_corruption_recovery_witness:
  "agentOutcome (throwing (js ''Function call turn comes immediately after a user turn'')) =
     Inl (js ''Function call turn comes immediately after a user turn'') \<and>
   isSessionCorruption (js ''Function call turn comes immediately after a user turn'') \<and>
   truthy (sessionKey sampleParams) \<and>
   sessionStore sampleWorld = Some [js ''main'' \<mapsto> sampleEntry] \<and>
   truthy (storePath sampleParams) \<and>
   fst (runReplyAgent sampleEnv
          (throwing (js ''Function call turn comes immediately after a user turn''))
          sampleParams sampleWorld) =
     Inr (Single
       \<lparr> ptext = Some ([9888, 65039] @ js '' Session history was corrupted. I'' @ [39] @
                        js ''ve reset the conversation - please try again!''),
         mediaUrl = None, mediaUrls = None, replyToId = None, audioAsVoice = None,
         isError = False \<rparr>) \<and>
   the (sessionStore (snd (runReplyAgent sampleEnv
          (throwing (js ''Function call turn comes immediately after a user turn''))
          sampleParams sampleWorld))) (js ''main'') = None \<and>
   files sampleWorld = {js ''sessions/s1.jsonl''} \<and>
   files (snd (runReplyAgent sampleEnv
          (throwing (js ''Function call turn comes immediately after a user turn''))
          sampleParams sampleWorld)) = {} \<and>
   the (savedStores (snd (runReplyAgent sampleEnv
          (throwing (js ''Function call turn comes immediately after a user turn''))
          sampleParams sampleWorld)) (js ''sessions.json'')) (js ''main'') = None"
proof -
  have h1: "agentOutcome (throwing (js ''Function call turn comes immediately after a user turn'')) =
     Inl (js ''Function call turn comes immediately after a user turn'')"
    by (simp add: throwing_def)
  have h2: "isSessionCorruption (js ''Function call turn comes immediately after a user turn'')"
    by (simp add: isSessionCorruption_def string_defs)
  have h3: "truthy (sessionKey sampleParams)"
    by (simp add: truthy_def sampleParams_def js_def)
  have h4: "sessionStore sampleWorld = Some [js ''main'' \<mapsto> sampleEntry]"
    by (simp add: sampleWorld_def)
  have h5: "truthy (storePath sampleParams)"
    by (simp add: truthy_def sampleParams_def js_def)
  have h6: "\<not> (shouldSteer sampleParams \<and> isStreaming sampleParams \<and>
      steerAccepted (throwing (js ''Function call turn comes immediately after a user turn'')) \<and>
      \<not> shouldFollowup sampleParams)"
    by (simp add: sampleParams_def)
  have h7: "\<not> (isActive sampleParams \<and> (shouldFollowup sampleParams \<or> queueMode sampleParams = Steer))"
    by (simp add: sampleParams_def)
  have h8: "diskOk sampleWorld" "files sampleWorld = {js ''sessions/s1.jsonl''}"
    "sessionEntry sampleParams = Some sampleEntry" "sessionId sampleEntry = js ''s1''"
    "sessionKey sampleParams = Some (js ''main'')" "storePath sampleParams = Some (js ''sessions.json'')"
    by (simp_all add: sampleWorld_def sampleParams_def sampleEntry_def)
  have h9: "resolveSessionTranscriptPath sampleEnv (js ''s1'') = js ''sessions/s1.jsonl''"
    by (simp add: sampleEnv_def js_def)
  from session_corruption_recovery [OF h1 h2 h3 h4 h5 h6 h7, of sampleEnv] h1 h2 h3 h4 h5 h8 h9
  show ?thesis by (simp add: js_def)
qed

section \<open>Steering into a live run\<close>

text \<open>
  C3, as the code has it. When the message is steered into the streaming run and
  no follow-up is requested, nothing is enqueued and no agent turn is started, the
  message is recorded as injected, and the session entry passed in is written to
  the store under the key with \<open>updatedAt\<close> set to the current time and every
  other field as passed in, replacing the record stored there; when there is a
  store path the store is saved under it, and the call fails exactly when that
  save fails. Without an entry, a store or a key the store and the saved stores
  are left as they are. When the store holds the entry passed in, every record of
  the store is afterwards what it was but for \<open>updatedAt\<close>.
\<close>

theorem steer_injection_refreshes_session:
  assumes "shouldSteer p" and "isStreaming p" and "steerAccepted ext" and "\<not> shouldFollowup p"
  shows "enqueued (snd (runReplyAgent env ext p w)) = enqueued w \<and>
         agentTurns (snd (runReplyAgent env ext p w)) = agentTurns w \<and>
         steeredMessages (snd (runReplyAgent env ext p w)) =
           steeredMessages w @ [(runSessionId (followupRun p), prompt (followupRun p))] \<and>
         sessionStore (snd (runReplyAgent env ext p w)) =
           (case (sessionEntry p, sessionStore w) of
              (Some entry, Some store) \<Rightarrow>
                if truthy (sessionKey p)
                then Some (store(the (sessionKey p) \<mapsto> entry\<lparr>updatedAt := clock w\<rparr>))
                else Some store
            | _ \<Rightarrow> sessionStore w) \<and>
         savedStores (snd (runReplyAgent env ext p w)) =
           (case (sessionEntry p, sessionStore w) of
              (Some entry, Some store) \<Rightarrow>
                if truthy (sessionKey p) \<and> truthy (storePath p) \<and> diskOk w
                then (savedStores w)
                       (the (storePath p) \<mapsto> store(the (sessionKey p) \<mapsto> entry\<lparr>updatedAt := clock w\<rparr>))
                else savedStores w
            | _ \<Rightarrow> savedStores w) \<and>
         fst (runReplyAgent env ext p w) =
           (if sessionEntry p \<noteq> None \<and> sessionStore w \<noteq> None \<and> truthy (sessionKey p) \<and>
               truthy (storePath p) \<and> \<not> diskOk w
            then Inl SaveFailed else Inr NoReply) \<and>
         (\<forall>entry store. sessionEntry p = Some entry \<and> sessionStore w = Some store \<and>
              truthy (sessionKey p) \<and> store (the (sessionKey p)) = Some entry \<longrightarrow>
            (\<forall>k. map_option (\<lambda>x. x\<lparr>updatedAt := 0\<rparr>)
                   (the (sessionStore (snd (runReplyAgent env ext p w))) k) =
                 map_option (\<lambda>x. x\<lparr>updatedAt := 0\<rparr>) (store k)))"
  using assms
  by (auto simp add: runReplyAgent_def freshClosure_def touchSession_def saveSessionStore_def Let_def
        split: option.splits)


theorem steer_injection_refreshes_session_witness:
  "shouldSteer (sampleParams\<lparr>shouldSteer := True, isStreaming := True, queueMode := Steer\<rparr>) \<and>
   isStreaming (sampleParams\<lparr>shouldSteer := True, isStreaming := True, queueMode := Steer\<rparr>) \<and>
   steerAccepted ((returning [] (sampleResult [] None))\<lparr>steerAccepted := True\<rparr>) \<and>
   \<not> shouldFollowup (sampleParams\<lparr>shouldSteer := True, isStreaming := True, queueMode := Steer\<rparr>) \<and>
   the (sessionStore sampleWorld) (js ''main'') = Some sampleEntry \<and>
   savedStores sampleWorld = Map.empty \<and>
   enqueued (snd (runReplyAgent sampleEnv
        ((returning [] (sampleResult [] None))\<lparr>steerAccepted := True\<rparr>)
        (sampleParams\<lparr>shouldSteer := True, isStreaming := True, queueMode := Steer\<rparr>)
        sampleWorld)) = [] \<and>
   agentTurns (snd (runReplyAgent sampleEnv
        ((returning [] (sampleResult [] None))\<lparr>steerAccepted := True\<rparr>)
        (sampleParams\<lparr>shouldSteer := True, isStreaming := True, queueMode := Steer\<rparr>)
        sampleWorld)) = 0 \<and>
   the (sessionStore (snd (runReplyAgent sampleEnv
        ((returning [] (sampleResult [] None))\<lparr>steerAccepted := True\<rparr>)
        (sampleParams\<lparr>shouldSteer := True, isStreaming := True, queueMode := Steer\<rparr>)
        sampleWorld))) (js ''main'') = Some (sampleEntry\<lparr>updatedAt := 5\<rparr>) \<and>
   the (savedStores (snd (runReplyAgent sampleEnv
        ((returning [] (sampleResult [] None))\<lparr>steerAccepted := True\<rparr>)
        (sampleParams\<lparr>shouldSteer := True, isStreaming := True, queueMode := Steer\<rparr>)
        sampleWorld)) (js ''sessions.json'')) (js ''main'') = Some (sampleEntry\<lparr>updatedAt := 5\<rparr>) \<and>
   fst (runReplyAgent sampleEnv
        ((returning [] (sampleResult [] None))\<lparr>steerAccepted := True\<rparr>)
        (sampleParams\<lparr>shouldSteer := True, isStreaming := True, queueMode := Steer\<rparr>)
        sampleWorld) = Inr NoReply"
proof -
  have h1: "shouldSteer (sampleParams\<lparr>shouldSteer := True, isStreaming := True, queueMode := Steer\<rparr>)"
    and h2: "isStreaming (sampleParams\<lparr>shouldSteer := True, isStreaming := True, queueMode := Steer\<rparr>)"
    and h3: "steerAccepted ((returning [] (sampleResult [] None))\<lparr>steerAccepted := True\<rparr>)"
    and h4: "\<not> shouldFollowup (sampleParams\<lparr>shouldSteer := True, isStreaming := True, queueMode := Steer\<rparr>)"
    by (simp_all add: sampleParams_def)
  have w: "enqueued sampleWorld = []" "agentTurns sampleWorld = 0" "diskOk sampleWorld"
    "clock sampleWorld = 5" "sessionStore sampleWorld = Some [js ''main'' \<mapsto> sampleEntry]"
    "savedStores sampleWorld = Map.empty"
    by (simp_all add: sampleWorld_def)
  have p: "sessionEntry (sampleParams\<lparr>shouldSteer := True, isStreaming := True, queueMode := Steer\<rparr>)
             = Some sampleEntry"
    "sessionKey (sampleParams\<lparr>shouldSteer := True, isStreaming := True, queueMode := Steer\<rparr>)
             = Some (js ''main'')"
    "storePath (sampleParams\<lparr>shouldSteer := True, isStreaming := True, queueMode := Steer\<rparr>)
             = Some (js ''sessions.json'')"
    by (simp_all add: sampleParams_def)
  from steer_injection_refreshes_session [OF h1 h2 h3 h4, of sampleEnv sampleWorld] h1 h2 h3 h4 w p
  show ?thesis by (simp add: truthy_def js_def)
qed

text \<open>
  C3 as stated fails: the stored entry does not stay untouched, its \<open>updatedAt\<close>
  moves from 1 to the current time 5.
\<close>

theorem steer_injection_sets_updatedAt:
  "map_option updatedAt (the (sessionStore sampleWorld) (js ''main'')) = Some 1 \<and>
   map_option updatedAt
     (the (sessionStore (snd (runReplyAgent sampleEnv
        ((returning [] (sampleResult [] None))\<lparr>steerAccepted := True\<rparr>)
        (sampleParams\<lparr>shouldSteer := True, isStreaming := True, isActive := True\<rparr>)
        sampleWorld))) (js ''main'')) = Some 5"
  by (simp add: steer_defs sample_defs js_def)

section \<open>Failures before the reply\<close>

text \<open>
  C5, as the code has it. When the call starts a turn and the model call fails in
  any way that is not recovered as session corruption, the function returns one
  text payload and no error: the context-overflow notice of the source when the
  message matches the overflow pattern, and otherwise the message, at its full
  length, between the prefix and the suffix of the source. The cap of 600
  characters belongs to \<open>formatAssistantErrorText\<close>: whatever it returns is at
  most 601 code units long unless it is the \<open>LLM request rejected\<close> text, and a
  trimmed error message that is no context overflow and no invalid-request error
  is returned whole up to 600 code units and cut to its first 600 code units and
  an ellipsis beyond.
\<close>

theorem pre_reply_failure_payload:
  assumes "agentOutcome ext = Inl message"
    and "\<not> (isSessionCorruption message \<and> truthy (sessionKey p) \<and> sessionStore w \<noteq> None \<and>
              truthy (storePath p))"
    and "\<not> (shouldSteer p \<and> isStreaming p \<and> steerAccepted ext \<and> \<not> shouldFollowup p)"
    and "\<not> (isActive p \<and> (shouldFollowup p \<or> queueMode p = Steer))"
  shows "fst (runReplyAgent env ext p w) =
           Inr (Single
             \<lparr> ptext = Some
                 (if isContextOverflow message
                  then [9888, 65039] @
                       js '' Context overflow - conversation too long. Starting fresh might help!''
                  else [9888, 65039] @ js '' Agent failed before reply: '' @ message @
                       js ''. Check gateway logs for details.''),
               mediaUrl = None, mediaUrls = None, replyToId = None, audioAsVoice = None,
               isError = False \<rparr>) \<and>
         (\<forall>out. formatAssistantErrorText msg = Some out \<longrightarrow>
            length out \<le> 601 \<or> startsWith out (js ''LLM request rejected: '')) \<and>
         (stopReason msg = js ''error'' \<and> errorMessage msg = Some m \<and> trim m \<noteq> [] \<and>
          \<not> isContextOverflowError (Some (trim m)) \<and> matchInvalidRequest (trim m) = None \<longrightarrow>
            formatAssistantErrorText msg =
              Some (if length (trim m) > 600 then take 600 (trim m) @ [8230] else trim m))"
  using runReplyAgent_failure_text(1) [OF assms] formatAssistantErrorText_bound
    formatAssistantErrorText_cut [of msg m]
  by (simp add: agentFailedText_def contextOverflowText_def warningSign_def textPayload_def)

theorem pre_reply_failure_payload_witness:
  "agentOutcome (throwing (js ''boom'')) = Inl (js ''boom'') \<and>
   \<not> isSessionCorruption (js ''boom'') \<and> \<not> isContextOverflow (js ''boom'') \<and>
   fst (runReplyAgent sampleEnv (throwing (js ''boom'')) sampleParams sampleWorld) =
     Inr (Single (textPayload
        ([9888, 65039] @ js '' Agent failed before reply: boom. Check gateway logs for details.''))) \<and>
   isContextOverflow (js ''Request too large for model'') \<and>
   fst (runReplyAgent sampleEnv (throwing (js ''Request too large for model'')) sampleParams
          sampleWorld) =
     Inr (Single (textPayload
        ([9888, 65039] @
         js '' Context overflow - conversation too long. Starting fresh might help!''))) \<and>
   isContextOverflow (js ''Context of 9 messages: Overflow'') \<and>
   isContextOverflow (js ''exceeds the context window'') \<and>
   \<not> isContextOverflow (js ''context'' @ [10] @ js ''overflow'') \<and>
   formatAssistantErrorText \<lparr> stopReason = js ''error'', errorMessage = Some (replicate 700 97) \<rparr> =
     Some (replicate 600 97 @ [8230]) \<and>
   length (replicate 600 (97::nat) @ [8230]) = 601"
proof -
  have h1: "agentOutcome (throwing m) = Inl m" for m
    by (simp add: throwing_def)
  have h2: "\<not> isSessionCorruption (js ''boom'')"
      "\<not> isSessionCorruption (js ''Request too large for model'')"
    by (simp_all add: isSessionCorruption_def string_defs)
  have h2': "\<not> (isSessionCorruption (js ''boom'') \<and> truthy (sessionKey sampleParams) \<and>
      sessionStore sampleWorld \<noteq> None \<and> truthy (storePath sampleParams))"
     "\<not> (isSessionCorruption (js ''Request too large for model'') \<and>
      truthy (sessionKey sampleParams) \<and>
      sessionStore sampleWorld \<noteq> None \<and> truthy (storePath sampleParams))"
    using h2 by simp_all
  have h3: "\<not> (shouldSteer sampleParams \<and> isStreaming sampleParams \<and>
      steerAccepted (throwing m) \<and> \<not> shouldFollowup sampleParams)" for m
    by (simp add: sampleParams_def)
  have h4: "\<not> (isActive sampleParams \<and> (shouldFollowup sampleParams \<or> queueMode sampleParams = Steer))"
    by (simp add: sampleParams_def)
  have h5: "\<not> isContextOverflow (js ''boom'')"
    "isContextOverflow (js ''Request too large for model'')"
    "isContextOverflow (js ''Context of 9 messages: Overflow'')"
    "isContextOverflow (js ''exceeds the context window'')"
    "\<not> isContextOverflow (js ''context'' @ [10] @ js ''overflow'')"
    by (simp_all add: isContextOverflow_def string_defs)
  have h6: "stopReason \<lparr> stopReason = js ''error'', errorMessage = Some (replicate 700 97) \<rparr> =
      js ''error''"
    "errorMessage \<lparr> stopReason = js ''error'', errorMessage = Some (replicate 700 97) \<rparr> =
      Some (replicate 700 97)"
    "trim (replicate 700 97) = replicate 700 97"
    "\<not> isContextOverflowError (Some (replicate 700 97))"
    "matchInvalidRequest (replicate 700 97) = None"
    using plain_raw [of "replicate 700 97"] by simp_all
  from pre_reply_failure_payload [OF h1 h2'(1) h3 h4, of sampleEnv
      "\<lparr> stopReason = js ''error'', errorMessage = Some (replicate 700 97) \<rparr>" "replicate 700 97"]
    pre_reply_failure_payload [OF h1 h2'(2) h3 h4, of sampleEnv]
    h1 h2 h5 h6
  show ?thesis by (simp add: js_def textPayload_def)
qed

text \<open>
  C5 as stated fails: a failure message of 700 characters is forwarded whole, in a
  text of 763 code units with no ellipsis.
\<close>

theorem long_failure_message_forwarded:
  "length (replicate 700 (97::nat)) = 700 \<and>
   fst (runReplyAgent sampleEnv (throwing (replicate 700 97)) sampleParams sampleWorld) =
     Inr (Single (textPayload
        (warningSign @ js '' Agent failed before reply: '' @ replicate 700 97 @
         js ''. Check gateway logs for details.''))) \<and>
   length (warningSign @ js '' Agent failed before reply: '' @ replicate 700 97 @
         js ''. Check gateway logs for details.'') = 763"
proof -
  have plain: "\<not> isSessionCorruption (replicate 700 97)" "\<not> isContextOverflow (replicate 700 97)"
    using plain_message [of "replicate 700 97"] by simp_all
  have "fst (runReplyAgent sampleEnv (throwing (replicate 700 97)) sampleParams sampleWorld) =
     Inr (Single (textPayload (agentFailedText (replicate 700 97))))"
    using runReplyAgent_failure_text(1) [of "throwing (replicate 700 97)" "replicate 700 97"
        sampleParams sampleWorld sampleEnv] plain
    by (simp add: throwing_def sampleParams_def)
  then show ?thesis by (simp add: agentFailedText_def js_def warningSign_def)
qed

section \<open>Stripping the heartbeat token\<close>






section \<open>The session update after a run\<close>

lemma settleBlockReply_frame:
  "sessionStore (settleBlockReply k ok w) = sessionStore w \<and>
   savedStores (settleBlockReply k ok w) = savedStores w \<and>
   diskOk (settleBlockReply k ok w) = diskOk w \<and>
   clock (settleBlockReply k ok w) = clock w \<and>
   autoCompactionCompleted (settleBlockReply k ok w) = autoCompactionCompleted w"
  by (simp add: settleBlockReply_def)

lemma awaitPendingBlockTasks_frame:
  "sessionStore (awaitPendingBlockTasks ext w) = sessionStore w \<and>
   savedStores (awaitPendingBlockTasks ext w) = savedStores w \<and>
   diskOk (awaitPendingBlockTasks ext w) = diskOk w \<and>
   clock (awaitPendingBlockTasks ext w) = clock w \<and>
   autoCompactionCompleted (awaitPendingBlockTasks ext w) = autoCompactionCompleted w"
proof -
  have "sessionStore (foldl (\<lambda>v k. settleBlockReply k (f k) v) w ks) = sessionStore w \<and>
   savedStores (foldl (\<lambda>v k. settleBlockReply k (f k) v) w ks) = savedStores w \<and>
   diskOk (foldl (\<lambda>v k. settleBlockReply k (f k) v) w ks) = diskOk w \<and>
   clock (foldl (\<lambda>v k. settleBlockReply k (f k) v) w ks) = clock w \<and>
   autoCompactionCompleted (foldl (\<lambda>v k. settleBlockReply k (f k) v) w ks) =
     autoCompactionCompleted w" for f ks
    by (induction ks arbitrary: w) (simp_all add: settleBlockReply_frame)
  then show ?thesis by (simp add: awaitPendingBlockTasks_def)
qed

lemma handleEvent_compaction:
  "autoCompactionCompleted (handleEvent env p w e) =
     (autoCompactionCompleted w \<or> compactionEnded e)"
  by (cases e) (auto simp add: callback_defs Let_def js_def split: option.splits)

lemma handleEvents_compaction:
  "autoCompactionCompleted (handleEvents env p evs w) =
     (autoCompactionCompleted w \<or> list_ex compactionEnded evs)"
  unfolding handleEvents_def
  by (induction evs arbitrary: w) (auto simp add: handleEvent_compaction)

lemma updateSessionUsage_nonzero:
  assumes "sessionStore v = Some st" and "truthy (sessionKey p)"
    and "orElse entry0 (st (the (sessionKey p))) = Some e"
    and "usageOf rr = Some u" and "hasNonzeroUsage env (Some u)"
  shows "updateSessionUsage env p entry0 rr fp fm v =
           writeEntry p st
             (nextEntry e u (providerUsed p rr fp) (modelUsed p rr fm)
                (contextTokensUsed env p entry0 rr fm) (clock v)) v"
  using assms by (simp add: updateSessionUsage_def Let_def)



lemma writeEntry_written:
  assumes "fst (writeEntry p st n v) = None"
  shows "sessionStore (snd (writeEntry p st n v)) = Some (st(the (sessionKey p) \<mapsto> n))"
    and "truthy (storePath p) \<Longrightarrow>
         savedStores (snd (writeEntry p st n v)) (the (storePath p)) =
           Some (st(the (sessionKey p) \<mapsto> n))"
  using assms
  by (auto simp add: writeEntry_def saveSessionStore_def Let_def split: if_splits)

lemma injectGroupIntro_entry:
  assumes "injectGroupIntro p v = (None, entry, u)" and "sessionStore v = Some st"
    and "truthy (sessionKey p)"
    and "orElse (sessionEntry p) (st (the (sessionKey p))) = Some e"
  obtains st' e' where "sessionStore u = Some st'"
    and "\<And>n. st'(the (sessionKey p) \<mapsto> n) = st(the (sessionKey p) \<mapsto> n)"
    and "orElse entry (st' (the (sessionKey p))) = Some e'"
    and "sessionId e' = sessionId e"
    and "(case entry of None \<Rightarrow> None | Some x \<Rightarrow> contextTokens x) =
         (case sessionEntry p of None \<Rightarrow> None | Some x \<Rightarrow> contextTokens x)"
proof (cases "sessionEntry p \<noteq> None \<and> shouldInjectGroupIntro p \<and>
    groupActivationNeedsSystemIntro (the (sessionEntry p)) = Some True")
  case True
  then obtain e0 where e0: "sessionEntry p = Some e0" by auto
  have e: "e = e0" using assms(4) e0 by (simp add: orElse_def)
  define e' where "e' = e0\<lparr>groupActivationNeedsSystemIntro := Some False, updatedAt := clock v\<rparr>"
  have "entry = Some e'" and "sessionStore u = Some (st(the (sessionKey p) \<mapsto> e'))"
    using assms(1,2,3) True e0
    by (auto simp add: injectGroupIntro_def saveSessionStore_def Let_def e'_def
          split: if_splits prod.splits)
  then show thesis
    using that [of "st(the (sessionKey p) \<mapsto> e')" e'] e e0
    by (simp add: orElse_def e'_def)
next
  case False
  then have "entry = sessionEntry p" and "sessionStore u = Some st"
    using assms(1,2)
    by (auto simp add: injectGroupIntro_def Let_def split: option.splits if_splits)
  then show thesis using that [of st e] assms(4) by simp
qed


lemma updateSessionUsage_compaction:
  "autoCompactionCompleted (snd (updateSessionUsage env p entry rr fp fm v)) =
     autoCompactionCompleted v"
  by (simp add: updateSessionUsage_def writeEntry_def saveSessionStore_def Let_def
        split: option.splits)

lemma finishPayloads_plain:
  assumes "\<not> autoCompactionCompleted v"
  shows "snd (finishPayloads env p entry filtered v) = v\<lparr>drains := drains v @ [queueKey p]\<rparr>"
  using assms by (simp add: finishPayloads_def finalizeWithFollowup_def)

lemma completeRun_session:
  assumes "fst (completeRun env ext p rr fp fm v) = Inr r" and "r \<noteq> NoReply"
    and "\<not> autoCompactionCompleted v"
    and "sessionStore v = Some st" and "truthy (sessionKey p)"
    and "orElse (sessionEntry p) (st (the (sessionKey p))) = Some e"
  obtains entry0 st' e' v3 where "sessionStore v3 = Some st'"
    and "\<And>n. st'(the (sessionKey p) \<mapsto> n) = st(the (sessionKey p) \<mapsto> n)"
    and "orElse entry0 (st' (the (sessionKey p))) = Some e'"
    and "sessionId e' = sessionId e"
    and "contextTokensUsed env p entry0 rr fm = contextTokensUsed env p (sessionEntry p) rr fm"
    and "clock v3 = clock v"
    and "fst (updateSessionUsage env p entry0 rr fp fm v3) = None"
    and "sessionStore (snd (completeRun env ext p rr fp fm v)) =
           sessionStore (snd (updateSessionUsage env p entry0 rr fp fm v3))"
    and "savedStores (snd (completeRun env ext p rr fp fm v)) =
           savedStores (snd (updateSessionUsage env p entry0 rr fp fm v3))"
proof -
  obtain g entry u where gi: "injectGroupIntro p v = (g, entry, u)"
    by (cases "injectGroupIntro p v") auto
  have g: "g = None"
  proof (cases g)
    case (Some x)
    then show ?thesis using completeRun_failed(1) [of p v x entry u env ext rr fp fm] gi assms(1)
      by simp
  qed simp
  note gi = gi [unfolded g]
  have u: "clock u = clock v" "autoCompactionCompleted u = autoCompactionCompleted v"
    using injectGroupIntro_streaming [of p v] gi by simp_all
  obtain st' e' where st': "sessionStore u = Some st'"
    and same: "\<And>n. st'(the (sessionKey p) \<mapsto> n) = st(the (sessionKey p) \<mapsto> n)"
    and e': "orElse entry (st' (the (sessionKey p))) = Some e'" "sessionId e' = sessionId e"
    and ctx: "(case entry of None \<Rightarrow> None | Some x \<Rightarrow> contextTokens x) =
         (case sessionEntry p of None \<Rightarrow> None | Some x \<Rightarrow> contextTokens x)"
    using injectGroupIntro_entry [OF gi assms(4,5,6)] by metis
  define w2 where "w2 = awaitPendingBlockTasks ext u"
  define filtered where "filtered =
      filteredPayloads p w2
        (filterMessagingToolDuplicates env
           (replyTaggedPayloads env p w2
              (sanitizedPayloads env p (case payloads rr of None \<Rightarrow> [] | Some ps \<Rightarrow> ps)))
           (case messagingToolSentTexts rr of None \<Rightarrow> [] | Some ts \<Rightarrow> ts))"
  define w3 where "w3 =
      (if shouldSignalTyping env filtered
       then w2\<lparr>typingCalls := typingCalls w2 @ signalRunStart (typingSignals p)\<rparr> else w2)"
  obtain e4 w4 where us: "updateSessionUsage env p entry rr fp fm w3 = (e4, w4)"
    by (cases "updateSessionUsage env p entry rr fp fm w3") auto
  have w3: "sessionStore w3 = Some st'" "clock w3 = clock v"
    "autoCompactionCompleted w3 = autoCompactionCompleted v"
    using awaitPendingBlockTasks_frame [of ext u] st' u by (simp_all add: w3_def w2_def)
  have w4: "\<not> autoCompactionCompleted w4"
    using updateSessionUsage_compaction [of env p entry rr fp fm w3] us w3(3) assms(3) by simp
  have unfold: "completeRun env ext p rr fp fm v =
      (if payloads rr = None \<or> payloads rr = Some [] \<or> filtered = []
       then finalizeWithFollowup p NoReply w2
       else case e4 of Some x \<Rightarrow> (Inl x, w4) | None \<Rightarrow> finishPayloads env p entry filtered w4)"
    using completeRun_unfold [OF gi w2_def filtered_def w3_def us] .
  have sent: "\<not> (payloads rr = None \<or> payloads rr = Some [] \<or> filtered = [])"
  proof
    assume c: "payloads rr = None \<or> payloads rr = Some [] \<or> filtered = []"
    have "completeRun env ext p rr fp fm v = finalizeWithFollowup p NoReply w2"
      unfolding unfold using c by (rule if_P)
    then show False using assms(1,2) by (simp add: finalizeWithFollowup_def)
  qed
  have rest: "completeRun env ext p rr fp fm v =
      (case e4 of Some x \<Rightarrow> (Inl x, w4) | None \<Rightarrow> finishPayloads env p entry filtered w4)"
    unfolding unfold using sent by (rule if_not_P)
  have e4: "e4 = None"
    using assms(1) by (cases e4) (simp_all add: rest)
  have final: "snd (completeRun env ext p rr fp fm v) = w4\<lparr>drains := drains w4 @ [queueKey p]\<rparr>"
    using e4 finishPayloads_plain [OF w4, of env p entry filtered] by (simp add: rest)
  have c: "contextTokensUsed env p entry rr fm = contextTokensUsed env p (sessionEntry p) rr fm"
    using ctx by (simp add: contextTokensUsed_def)
  show thesis
    using that [of w3 st' entry e'] w3 same e' c us e4 final by simp
qed


lemma runReplyAgent_early_result:
  assumes "(shouldSteer p \<and> isStreaming p \<and> steerAccepted ext \<and> \<not> shouldFollowup p) \<or>
           (isActive p \<and> (shouldFollowup p \<or> queueMode p = Steer))"
  shows "fst (runReplyAgent env ext p w) = Inr NoReply \<or>
         fst (runReplyAgent env ext p w) = Inl SaveFailed"
proof -
  have t: "fst (touchSession p x) = None \<or> fst (touchSession p x) = Some SaveFailed" for x
    by (simp add: touchSession_def saveSessionStore_def Let_def split: option.splits)
  have "fst (case touchSession p x of
            (None, w2) \<Rightarrow> (Inr NoReply, w2\<lparr>typingCalls := typingCalls w2 @ [Cleanup]\<rparr>)
          | (Some e, w2) \<Rightarrow> (Inl e, w2)) = Inr NoReply \<or>
        fst (case touchSession p x of
            (None, w2) \<Rightarrow> (Inr NoReply, w2\<lparr>typingCalls := typingCalls w2 @ [Cleanup]\<rparr>)
          | (Some e, w2) \<Rightarrow> (Inl e, w2)) = Inl SaveFailed" for x
    using t [of x] by (cases "touchSession p x") (auto split: option.splits)
  then show ?thesis
    using assms by (auto simp add: runReplyAgent_def Let_def)
qed

lemma runReplyAgent_returns:
  assumes "agentOutcome ext = Inr (rr, fp, fm)"
    and "fst (runReplyAgent env ext p w) = Inr r" and "r \<noteq> NoReply"
  obtains v where
    "runReplyAgent env ext p w =
       (fst (completeRun env ext p rr fp fm v),
        (snd (completeRun env ext p rr fp fm v))
          \<lparr>typingCalls := typingCalls (snd (completeRun env ext p rr fp fm v)) @ [MarkRunComplete]\<rparr>)"
    and "sessionStore v = sessionStore w" and "clock v = clock w"
    and "autoCompactionCompleted v = list_ex compactionEnded (agentEvents ext)"
proof -
  have turn: "\<not> (shouldSteer p \<and> isStreaming p \<and> steerAccepted ext \<and> \<not> shouldFollowup p)"
    "\<not> (isActive p \<and> (shouldFollowup p \<or> queueMode p = Steer))"
    using runReplyAgent_early_result [of p ext env w] assms(2,3) by auto
  obtain w1 where run: "runReplyAgent env ext p w = runTurn env ext p w1"
    and w1: "sessionStore w1 = sessionStore w" "clock w1 = clock w" "\<not> autoCompactionCompleted w1"
    using runReplyAgent_turn [OF turn] by metis
  define v where "v = handleEvents env p (agentEvents ext) (w1\<lparr>agentTurns := Suc (agentTurns w1)\<rparr>)"
  have frame: "sessionStore v = sessionStore w" "clock v = clock w"
    using handleEvents_frame [of env p "agentEvents ext" "w1\<lparr>agentTurns := Suc (agentTurns w1)\<rparr>"] w1
    by (simp_all add: v_def)
  have comp: "autoCompactionCompleted v = list_ex compactionEnded (agentEvents ext)"
    using w1(3) by (simp add: v_def handleEvents_compaction)
  have "runReplyAgent env ext p w =
       (fst (completeRun env ext p rr fp fm v),
        (snd (completeRun env ext p rr fp fm v))
          \<lparr>typingCalls := typingCalls (snd (completeRun env ext p rr fp fm v)) @ [MarkRunComplete]\<rparr>)"
    by (simp add: run runTurn_def Let_def assms(1) v_def split: prod.splits)
  then show thesis using that frame comp by blast
qed

lemma run_session:
  assumes "agentOutcome ext = Inr (rr, fp, fm)"
    and "fst (runReplyAgent env ext p w) = Inr r" and "r \<noteq> NoReply"
    and "\<not> list_ex compactionEnded (agentEvents ext)"
    and "sessionStore w = Some st" and "truthy (sessionKey p)"
    and "orElse (sessionEntry p) (st (the (sessionKey p))) = Some e"
  obtains entry0 st' e' v3 where "sessionStore v3 = Some st'"
    and "\<And>n. st'(the (sessionKey p) \<mapsto> n) = st(the (sessionKey p) \<mapsto> n)"
    and "orElse entry0 (st' (the (sessionKey p))) = Some e'"
    and "sessionId e' = sessionId e"
    and "contextTokensUsed env p entry0 rr fm = contextTokensUsed env p (sessionEntry p) rr fm"
    and "clock v3 = clock w"
    and "fst (updateSessionUsage env p entry0 rr fp fm v3) = None"
    and "sessionStore (snd (runReplyAgent env ext p w)) =
           sessionStore (snd (updateSessionUsage env p entry0 rr fp fm v3))"
    and "savedStores (snd (runReplyAgent env ext p w)) =
           savedStores (snd (updateSessionUsage env p entry0 rr fp fm v3))"
proof -
  obtain v where run: "runReplyAgent env ext p w =
       (fst (completeRun env ext p rr fp fm v),
        (snd (completeRun env ext p rr fp fm v))
          \<lparr>typingCalls := typingCalls (snd (completeRun env ext p rr fp fm v)) @ [MarkRunComplete]\<rparr>)"
    and v: "sessionStore v = sessionStore w" "clock v = clock w"
      "autoCompactionCompleted v = list_ex compactionEnded (agentEvents ext)"
    using runReplyAgent_returns [OF assms(1,2,3)] by metis
  have c: "fst (completeRun env ext p rr fp fm v) = Inr r" "\<not> autoCompactionCompleted v"
    "sessionStore v = Some st"
    using assms(2,4,5) v by (simp_all add: run)
  show thesis
    using completeRun_session [OF c(1) assms(3) c(2) c(3) assms(6,7)] that v(2)
    by (simp add: run) metis
qed

text \<open>
  C1, as the code has it. For a run whose model call returns with nonzero usage and
  which returns at least one payload, with no auto-compaction completed during it,
  given a session store, a key and an entry (the one passed in, else the stored
  one): the entry under the key is overwritten with \<open>inputTokens\<close> the input
  count, \<open>outputTokens\<close> the output count, \<open>totalTokens\<close> the sum of input,
  cache-read and cache-write tokens when that is positive (else the usage's total,
  else the input count), and \<open>updatedAt\<close> the current time; the session id is kept.
  The output count is no part of \<open>totalTokens\<close>.
\<close>

theorem usage_overwrites_token_counters:
  assumes "agentOutcome ext = Inr (rr, fp, fm)"
    and "fst (runReplyAgent env ext p w) = Inr r" and "r \<noteq> NoReply"
    and "\<not> list_ex compactionEnded (agentEvents ext)"
    and "sessionStore w = Some st" and "truthy (sessionKey p)"
    and "orElse (sessionEntry p) (st (the (sessionKey p))) = Some e"
    and "usageOf rr = Some u" and "hasNonzeroUsage env (Some u)"
  shows "\<exists>n. sessionStore (snd (runReplyAgent env ext p w)) = Some (st(the (sessionKey p) \<mapsto> n)) \<and>
             inputTokens n = Some (case usageInput u of None \<Rightarrow> 0 | Some i \<Rightarrow> i) \<and>
             outputTokens n = Some (case usageOutput u of None \<Rightarrow> 0 | Some i \<Rightarrow> i) \<and>
             totalTokens n =
               Some (let promptTokens =
                           (case usageInput u of None \<Rightarrow> 0 | Some i \<Rightarrow> i) +
                           (case usageCacheRead u of None \<Rightarrow> 0 | Some i \<Rightarrow> i) +
                           (case usageCacheWrite u of None \<Rightarrow> 0 | Some i \<Rightarrow> i)
                     in if promptTokens > 0 then promptTokens
                        else (case usageTotal u of
                                None \<Rightarrow> (case usageInput u of None \<Rightarrow> 0 | Some i \<Rightarrow> i)
                              | Some t \<Rightarrow> t)) \<and>
             updatedAt n = clock w \<and>
             sessionId n = sessionId e"
proof -
  obtain entry0 st' e' v3 where v3: "sessionStore v3 = Some st'"
    and same: "\<And>n. st'(the (sessionKey p) \<mapsto> n) = st(the (sessionKey p) \<mapsto> n)"
    and e': "orElse entry0 (st' (the (sessionKey p))) = Some e'" "sessionId e' = sessionId e"
    and clock: "clock v3 = clock w"
    and ok: "fst (updateSessionUsage env p entry0 rr fp fm v3) = None"
    and store: "sessionStore (snd (runReplyAgent env ext p w)) =
           sessionStore (snd (updateSessionUsage env p entry0 rr fp fm v3))"
    using run_session [OF assms(1-7)] by metis
  define n where "n = nextEntry e' u (providerUsed p rr fp) (modelUsed p rr fm)
                (contextTokensUsed env p entry0 rr fm) (clock v3)"
  have upd: "updateSessionUsage env p entry0 rr fp fm v3 = writeEntry p st' n v3"
    using updateSessionUsage_nonzero [OF v3 assms(6) e'(1) assms(8,9)] by (simp add: n_def)
  have "sessionStore (snd (runReplyAgent env ext p w)) = Some (st(the (sessionKey p) \<mapsto> n))"
    using writeEntry_written(1) [of p st' n v3] ok upd store same by simp
  then show ?thesis
    using e'(2) clock by (intro exI [of _ n]) (simp add: n_def nextEntry_def Let_def)
qed

theorem usage_overwrites_token_counters_witness:
  "fst (runReplyAgent sampleEnv
        (returning [] (sampleResult [textPayload (js ''hi'')] (Some sampleUsage)))
        sampleParams sampleWorld) \<noteq> Inr NoReply \<and>
   hasNonzeroUsage sampleEnv (Some sampleUsage) \<and>
   (\<exists>n. the (sessionStore (snd (runReplyAgent sampleEnv
        (returning [] (sampleResult [textPayload (js ''hi'')] (Some sampleUsage)))
        sampleParams sampleWorld))) (js ''main'') = Some n \<and>
      inputTokens n = Some 100 \<and> outputTokens n = Some 50 \<and> totalTokens n = Some 100 \<and>
      updatedAt n = 5 \<and> sessionId n = js ''s1'')"
proof -
  define ext where "ext = returning [] (sampleResult [textPayload (js ''hi'')] (Some sampleUsage))"
  have h1: "agentOutcome ext =
      Inr (sampleResult [textPayload (js ''hi'')] (Some sampleUsage), js ''anthropic'', js ''m1'')"
    by (simp add: ext_def returning_def)
  have h2: "fst (runReplyAgent sampleEnv ext sampleParams sampleWorld) =
      Inr (Single ((textPayload (js ''hi''))\<lparr>audioAsVoice := Some False\<rparr>))"
    by (simp add: ext_def run_defs sample_defs string_defs)
  have h3: "Single ((textPayload (js ''hi''))\<lparr>audioAsVoice := Some False\<rparr>) \<noteq> NoReply"
    by simp
  have h4: "\<not> list_ex compactionEnded (agentEvents ext)"
    by (simp add: ext_def returning_def)
  have h5: "sessionStore sampleWorld = Some [js ''main'' \<mapsto> sampleEntry]"
    by (simp add: sampleWorld_def)
  have h6: "truthy (sessionKey sampleParams)"
    by (simp add: truthy_def sampleParams_def js_def)
  have h7: "orElse (sessionEntry sampleParams)
      ([js ''main'' \<mapsto> sampleEntry] (the (sessionKey sampleParams))) = Some sampleEntry"
    by (simp add: orElse_def sampleParams_def)
  have h8: "usageOf (sampleResult [textPayload (js ''hi'')] (Some sampleUsage)) = Some sampleUsage"
    by (simp add: usageOf_def sampleResult_def)
  have h9: "hasNonzeroUsage sampleEnv (Some sampleUsage)"
    by (simp add: sampleEnv_def sampleUsage_def positive_def)
  have v: "clock sampleWorld = 5" "sessionKey sampleParams = Some (js ''main'')"
    "sessionId sampleEntry = js ''s1''"
    "usageInput sampleUsage = Some 100" "usageOutput sampleUsage = Some 50"
    "usageCacheRead sampleUsage = None" "usageCacheWrite sampleUsage = None"
    "usageTotal sampleUsage = None"
    by (simp_all add: sampleWorld_def sampleParams_def sampleEntry_def sampleUsage_def)
  from usage_overwrites_token_counters [OF h1 h2 h3 h4 h5 h6 h7 h8 h9] h2 h9 v
  show ?thesis by (auto simp add: ext_def)
qed

text \<open>
  C1 as stated fails: with usage input 100, output 50 and no cache tokens the
  stored \<open>totalTokens\<close> is 100, not 150; and the same usage with no payload to
  send leaves the entry as it was.
\<close>

theorem usage_100_50_gives_total_100:
  "usageOf (sampleResult [textPayload (js ''hi'')] (Some sampleUsage)) =
     Some \<lparr> usageInput = Some 100, usageOutput = Some 50, usageCacheRead = None,
            usageCacheWrite = None, usageTotal = None \<rparr> \<and>
   map_option totalTokens
     (the (sessionStore (snd (runReplyAgent sampleEnv
        (returning [] (sampleResult [textPayload (js ''hi'')] (Some sampleUsage)))
        sampleParams sampleWorld))) (js ''main'')) = Some (Some 100) \<and>
   the (sessionStore (snd (runReplyAgent sampleEnv
        (returning [] (sampleResult [] (Some sampleUsage)))
        sampleParams sampleWorld))) (js ''main'') = Some sampleEntry"
  by (simp add: run_defs sample_defs string_defs)






end
